theory Spec2Isabelle
  imports Complex_Main
begin

text \<open>
  The impedance pipeline of the repository as pure functions: the validator of package
  \<^verbatim>\<open>signal\<close>, the transform of package \<^verbatim>\<open>fft\<close> and the calculator of package
  \<^verbatim>\<open>impedance\<close>. Slices are lists, a Go \<^verbatim>\<open>error\<close> is a value of the datatype \<open>error\<close>,
  a function returning \<^verbatim>\<open>(T, error)\<close> returns \<open>error + T\<close>, and a function returning only
  an \<^verbatim>\<open>error\<close> returns \<open>error option\<close>, \<open>None\<close> being \<^verbatim>\<open>nil\<close>.
\<close>

section \<open>Go's numeric types\<close>

subsection \<open>float64\<close>

text \<open>
  A \<^verbatim>\<open>float64\<close> is a finite value, one of the two infinities, or NaN. Finite values are
  carried as reals. An arithmetic result is exact when it stays in the range of the
  format and becomes an infinity exactly when IEEE 754 round-to-nearest would produce one
  (magnitude at least \<open>2^1024 - 2^970\<close>): overflow, NaN and the infinities behave as in
  Go, rounding to 53 bits is not modelled, and the two zeros are one value (a division by
  zero takes the sign of the numerator).
\<close>

datatype float64 = Finite real | PosInf | NegInf | NaN

definition overflow_threshold :: real where
  "overflow_threshold = 2 ^ 1024 - 2 ^ 970"

definition rnd :: "real \<Rightarrow> float64" where
  "rnd r = (if overflow_threshold \<le> r then PosInf
            else if r \<le> - overflow_threshold then NegInf
            else Finite r)"

text \<open>Conversion \<^verbatim>\<open>float64(i)\<close> of a Go \<^verbatim>\<open>int\<close>.\<close>

definition float64_of_int :: "int \<Rightarrow> float64" where
  "float64_of_int i = rnd (of_int i)"

fun fneg :: "float64 \<Rightarrow> float64" where
  "fneg (Finite a) = Finite (- a)"
| "fneg PosInf = NegInf"
| "fneg NegInf = PosInf"
| "fneg NaN = NaN"

text \<open>The sign of a value that is not NaN: \<open>-1\<close>, \<open>0\<close> or \<open>1\<close>.\<close>

fun fsign :: "float64 \<Rightarrow> real" where
  "fsign (Finite a) = sgn a"
| "fsign PosInf = 1"
| "fsign NegInf = - 1"
| "fsign NaN = 0"

definition signed_inf :: "real \<Rightarrow> float64" where
  "signed_inf s = (if s = 0 then NaN else if 0 < s then PosInf else NegInf)"

fun fadd :: "float64 \<Rightarrow> float64 \<Rightarrow> float64" where
  "fadd (Finite a) (Finite b) = rnd (a + b)"
| "fadd NaN y = NaN"
| "fadd x NaN = NaN"
| "fadd PosInf NegInf = NaN"
| "fadd NegInf PosInf = NaN"
| "fadd PosInf y = PosInf"
| "fadd NegInf y = NegInf"
| "fadd x PosInf = PosInf"
| "fadd x NegInf = NegInf"

definition fsub :: "float64 \<Rightarrow> float64 \<Rightarrow> float64" where
  "fsub x y = fadd x (fneg y)"

fun fmul :: "float64 \<Rightarrow> float64 \<Rightarrow> float64" where
  "fmul (Finite a) (Finite b) = rnd (a * b)"
| "fmul NaN y = NaN"
| "fmul x NaN = NaN"
| "fmul x y = signed_inf (fsign x * fsign y)"

fun fdiv :: "float64 \<Rightarrow> float64 \<Rightarrow> float64" where
  "fdiv (Finite a) (Finite b) = (if b = 0 then signed_inf (sgn a) else rnd (a / b))"
| "fdiv NaN y = NaN"
| "fdiv x NaN = NaN"
| "fdiv (Finite a) y = Finite 0"
| "fdiv x (Finite b) = signed_inf (fsign x * (if b < 0 then - 1 else 1))"
| "fdiv x y = NaN"

text \<open>Comparisons: every comparison with NaN is false, except \<^verbatim>\<open>!=\<close>.\<close>

fun flt :: "float64 \<Rightarrow> float64 \<Rightarrow> bool" where
  "flt (Finite a) (Finite b) = (a < b)"
| "flt NaN y = False"
| "flt x NaN = False"
| "flt x NegInf = False"
| "flt PosInf y = False"
| "flt x y = True"

definition feq :: "float64 \<Rightarrow> float64 \<Rightarrow> bool" where
  "feq x y = (x \<noteq> NaN \<and> x = y)"

definition fne :: "float64 \<Rightarrow> float64 \<Rightarrow> bool" where
  "fne x y = (\<not> feq x y)"

definition fle :: "float64 \<Rightarrow> float64 \<Rightarrow> bool" where
  "fle x y = (flt x y \<or> feq x y)"

definition fgt :: "float64 \<Rightarrow> float64 \<Rightarrow> bool" where
  "fgt x y = flt y x"

definition fge :: "float64 \<Rightarrow> float64 \<Rightarrow> bool" where
  "fge x y = fle y x"

subsection \<open>Package math\<close>

definition math_Pi :: float64 where
  "math_Pi = Finite pi"

definition math_IsNaN :: "float64 \<Rightarrow> bool" where
  "math_IsNaN f = (f = NaN)"

text \<open>\<^verbatim>\<open>math.IsInf(f, sign)\<close>: \<open>sign > 0\<close> asks for \<open>+Inf\<close>, \<open>sign < 0\<close> for \<open>-Inf\<close>, \<open>0\<close> for either.\<close>

definition math_IsInf :: "float64 \<Rightarrow> int \<Rightarrow> bool" where
  "math_IsInf f sign = (0 \<le> sign \<and> f = PosInf \<or> sign \<le> 0 \<and> f = NegInf)"

fun math_Abs :: "float64 \<Rightarrow> float64" where
  "math_Abs (Finite a) = Finite \<bar>a\<bar>"
| "math_Abs PosInf = PosInf"
| "math_Abs NegInf = PosInf"
| "math_Abs NaN = NaN"

fun math_Exp :: "float64 \<Rightarrow> float64" where
  "math_Exp (Finite a) = rnd (exp a)"
| "math_Exp PosInf = PosInf"
| "math_Exp NegInf = Finite 0"
| "math_Exp NaN = NaN"

text \<open>\<^verbatim>\<open>math.Sincos\<close>, as its two components.\<close>

fun math_Sin :: "float64 \<Rightarrow> float64" where
  "math_Sin (Finite a) = Finite (sin a)"
| "math_Sin x = NaN"

fun math_Cos :: "float64 \<Rightarrow> float64" where
  "math_Cos (Finite a) = Finite (cos a)"
| "math_Cos x = NaN"

text \<open>\<^verbatim>\<open>math.Hypot(p, q)\<close>: \<open>+Inf\<close> when either argument is infinite, otherwise NaN when
  either is NaN, otherwise \<open>sqrt(p*p + q*q)\<close>.\<close>

fun math_Hypot :: "float64 \<Rightarrow> float64 \<Rightarrow> float64" where
  "math_Hypot (Finite p) (Finite q) = rnd (sqrt (p * p + q * q))"
| "math_Hypot PosInf q = PosInf"
| "math_Hypot NegInf q = PosInf"
| "math_Hypot p PosInf = PosInf"
| "math_Hypot p NegInf = PosInf"
| "math_Hypot p q = NaN"

text \<open>
  \<^verbatim>\<open>math.Atan2(y, x)\<close>, following the case order of the Go library: NaN first, then
  \<open>y = 0\<close>, then \<open>x = 0\<close>, then the infinities, then the quadrant of \<open>atan(y/x)\<close>.
\<close>

definition copysign :: "real \<Rightarrow> float64 \<Rightarrow> float64" where
  "copysign v y = (if fsign y < 0 then Finite (- v) else Finite v)"

fun math_Atan :: "float64 \<Rightarrow> float64" where
  "math_Atan (Finite a) = Finite (arctan a)"
| "math_Atan PosInf = Finite (pi / 2)"
| "math_Atan NegInf = Finite (- (pi / 2))"
| "math_Atan NaN = NaN"

definition math_Atan2 :: "float64 \<Rightarrow> float64 \<Rightarrow> float64" where
  "math_Atan2 y x =
     (if math_IsNaN x \<or> math_IsNaN y then NaN
      else if feq y (Finite 0) then
        (if fle (Finite 0) x then copysign 0 y else copysign pi y)
      else if feq x (Finite 0) then copysign (pi / 2) y
      else if math_IsInf x 0 then
        (if math_IsInf x 1 then
           (if math_IsInf y 0 then copysign (pi / 4) y else copysign 0 y)
         else
           (if math_IsInf y 0 then copysign (3 * pi / 4) y else copysign pi y))
      else if math_IsInf y 0 then copysign (pi / 2) y
      else
        (let q = math_Atan (fdiv y x) in
         if flt x (Finite 0) then
           (if fle q (Finite 0) then fadd q math_Pi else fsub q math_Pi)
         else q))"

subsection \<open>complex128 and package math/cmplx\<close>

datatype complex128 = Complex128 (real_part: float64) (imag_part: float64)

definition cadd :: "complex128 \<Rightarrow> complex128 \<Rightarrow> complex128" where
  "cadd x y = Complex128 (fadd (real_part x) (real_part y)) (fadd (imag_part x) (imag_part y))"

definition csub :: "complex128 \<Rightarrow> complex128 \<Rightarrow> complex128" where
  "csub x y = Complex128 (fsub (real_part x) (real_part y)) (fsub (imag_part x) (imag_part y))"

definition cmul :: "complex128 \<Rightarrow> complex128 \<Rightarrow> complex128" where
  "cmul x y =
     Complex128
       (fsub (fmul (real_part x) (real_part y)) (fmul (imag_part x) (imag_part y)))
       (fadd (fmul (real_part x) (imag_part y)) (fmul (imag_part x) (real_part y)))"

text \<open>
  Complex division as the Go runtime computes it (Smith's algorithm). The runtime's
  final correction of a \<open>NaN+NaNi\<close> quotient applies only when the divisor is zero or an
  operand is infinite; it is not part of the model.
\<close>

definition complex128div :: "complex128 \<Rightarrow> complex128 \<Rightarrow> complex128" where
  "complex128div n m =
     (if fge (math_Abs (real_part m)) (math_Abs (imag_part m)) then
        (let ratio = fdiv (imag_part m) (real_part m);
             denom = fadd (real_part m) (fmul ratio (imag_part m))
         in Complex128
              (fdiv (fadd (real_part n) (fmul (imag_part n) ratio)) denom)
              (fdiv (fsub (imag_part n) (fmul (real_part n) ratio)) denom))
      else
        (let ratio = fdiv (real_part m) (imag_part m);
             denom = fadd (imag_part m) (fmul ratio (real_part m))
         in Complex128
              (fdiv (fadd (fmul (real_part n) ratio) (imag_part n)) denom)
              (fdiv (fsub (fmul (imag_part n) ratio) (real_part n)) denom)))"

definition cmplx_IsInf :: "complex128 \<Rightarrow> bool" where
  "cmplx_IsInf x = (math_IsInf (real_part x) 0 \<or> math_IsInf (imag_part x) 0)"

definition cmplx_IsNaN :: "complex128 \<Rightarrow> bool" where
  "cmplx_IsNaN x =
     (if math_IsInf (real_part x) 0 \<or> math_IsInf (imag_part x) 0 then False
      else if math_IsNaN (real_part x) \<or> math_IsNaN (imag_part x) then True
      else False)"

definition cmplx_Abs :: "complex128 \<Rightarrow> float64" where
  "cmplx_Abs x = math_Hypot (real_part x) (imag_part x)"

definition cmplx_Phase :: "complex128 \<Rightarrow> float64" where
  "cmplx_Phase x = math_Atan2 (imag_part x) (real_part x)"

text \<open>\<^verbatim>\<open>cmplx.Exp\<close> on an argument whose real part is finite: \<open>e^re (cos im + i sin im)\<close>.\<close>

definition cmplx_Exp :: "complex128 \<Rightarrow> complex128" where
  "cmplx_Exp x =
     (let r = math_Exp (real_part x)
      in Complex128 (fmul r (math_Cos (imag_part x))) (fmul r (math_Sin (imag_part x))))"

section \<open>Package time\<close>

text \<open>
  A \<^verbatim>\<open>time.Time\<close> is the number of nanoseconds since the zero instant (January 1,
  year 1, 00:00:00 UTC), the instant \<^verbatim>\<open>IsZero\<close> recognises. A \<^verbatim>\<open>Duration\<close> is a 64-bit
  count of nanoseconds; \<^verbatim>\<open>Sub\<close> saturates at its bounds.
\<close>

type_synonym Time = int
type_synonym Duration = int

definition IsZero :: "Time \<Rightarrow> bool" where
  "IsZero t = (t = 0)"

definition minDuration :: Duration where
  "minDuration = - (2 ^ 63)"

definition maxDuration :: Duration where
  "maxDuration = 2 ^ 63 - 1"

definition Sub :: "Time \<Rightarrow> Time \<Rightarrow> Duration" where
  "Sub t u =
     (let d = t - u
      in if d < minDuration then minDuration
         else if maxDuration < d then maxDuration
         else d)"

text \<open>Go's integer \<^verbatim>\<open>/\<close> and \<^verbatim>\<open>%\<close> truncate towards zero.\<close>

definition go_quot :: "int \<Rightarrow> int \<Rightarrow> int" where
  "go_quot a b = sgn a * sgn b * (\<bar>a\<bar> div \<bar>b\<bar>)"

definition go_rem :: "int \<Rightarrow> int \<Rightarrow> int" where
  "go_rem a b = a - b * go_quot a b"

definition Second :: Duration where
  "Second = 1000000000"

definition Seconds :: "Duration \<Rightarrow> float64" where
  "Seconds d =
     (let sec = go_quot d Second; nsec = go_rem d Second
      in fadd (float64_of_int sec) (fdiv (float64_of_int nsec) (Finite 1000000000)))"

section \<open>Package config: errors\<close>

datatype error =
    ErrInvalidSignalLength
  | ErrInvalidSampleRate
  | ErrMismatchedSignalLength
  | ErrMismatchedSampleRate
  | ValidationError (Field: string) (Message: string)
  | ProcessingError (Operation: string) (Cause: error)
  | Errorf string

definition NewValidationError :: "string \<Rightarrow> string \<Rightarrow> error" where
  "NewValidationError field message = ValidationError field message"

definition NewProcessingError :: "string \<Rightarrow> error \<Rightarrow> error" where
  "NewProcessingError operation cause = ProcessingError operation cause"

text \<open>\<^verbatim>\<open>%d\<close> of a non-negative integer.\<close>

fun fmt_d :: "nat \<Rightarrow> string" where
  "fmt_d n =
     (if n < 10 then [''0123456789'' ! n]
      else fmt_d (n div 10) @ [''0123456789'' ! (n mod 10)])"

declare fmt_d.simps [simp del]

definition quoted :: "string \<Rightarrow> string" where
  "quoted s = [CHR 0x27] @ s @ [CHR 0x27]"

fun Error :: "error \<Rightarrow> string" where
  "Error ErrInvalidSignalLength = ''signal length must be greater than 0''"
| "Error ErrInvalidSampleRate = ''sample rate must be greater than 0''"
| "Error ErrMismatchedSignalLength = ''voltage and current signals must have the same length''"
| "Error ErrMismatchedSampleRate =
     ''voltage and current signals must have the same sample rate''"
| "Error (ValidationError field message) =
     ''validation error for field '' @ quoted field @ '': '' @ message"
| "Error (ProcessingError operation cause) =
     ''processing error in operation '' @ quoted operation @ '': '' @ Error cause"
| "Error (Errorf s) = s"

section \<open>Package signal: types\<close>

record Signal =
  Timestamp :: Time
  Values :: "float64 list"
  SampleRate :: float64

record ComplexSignal =
  Timestamp_c :: Time
  Values_c :: "complex128 list"
  Frequencies_c :: "float64 list"

record ImpedanceData =
  Timestamp_z :: Time
  Impedance :: "complex128 list"
  Frequencies_z :: "float64 list"
  Magnitude :: "float64 list"
  Phase :: "float64 list"

definition CalculateMagnitudePhase :: "ImpedanceData \<Rightarrow> float64 list \<times> float64 list" where
  "CalculateMagnitudePhase z = (map cmplx_Abs (Impedance z), map cmplx_Phase (Impedance z))"

section \<open>Package signal: the validator\<close>

text \<open>
  \<^verbatim>\<open>for i, v := range xs { if ... { return err } }\<close>: the check of the first index that
  fails, scanning upwards from index \<open>i\<close>.
\<close>

primrec for_range :: "nat \<Rightarrow> (nat \<Rightarrow> 'a \<Rightarrow> error option) \<Rightarrow> 'a list \<Rightarrow> error option" where
  "for_range i chk [] = None"
| "for_range i chk (v # vs) =
     (case chk i v of Some err \<Rightarrow> Some err | None \<Rightarrow> for_range (Suc i) chk vs)"

definition check_value :: "nat \<Rightarrow> float64 \<Rightarrow> error option" where
  "check_value i v =
     (if math_IsNaN v then
        Some (NewValidationError ''Values'' (''NaN value found at index '' @ fmt_d i))
      else if math_IsInf v 0 then
        Some (NewValidationError ''Values'' (''infinite value found at index '' @ fmt_d i))
      else None)"

definition ValidateSignal :: "Signal \<Rightarrow> error option" where
  "ValidateSignal signal =
     (if length (Values signal) = 0 then
        Some (NewValidationError ''Values'' ''signal values cannot be empty'')
      else if fle (SampleRate signal) (Finite 0) then
        Some (NewValidationError ''SampleRate'' ''sample rate must be greater than 0'')
      else if IsZero (Timestamp signal) then
        Some (NewValidationError ''Timestamp'' ''timestamp cannot be zero'')
      else for_range 0 check_value (Values signal))"

definition check_complex_value :: "nat \<Rightarrow> complex128 \<Rightarrow> error option" where
  "check_complex_value i v =
     (if cmplx_IsNaN v then
        Some (NewValidationError ''Values'' (''NaN complex value found at index '' @ fmt_d i))
      else if cmplx_IsInf v then
        Some (NewValidationError ''Values''
               (''infinite complex value found at index '' @ fmt_d i))
      else None)"

definition check_frequency :: "nat \<Rightarrow> float64 \<Rightarrow> error option" where
  "check_frequency i freq =
     (if math_IsNaN freq then
        Some (NewValidationError ''Frequencies'' (''NaN frequency found at index '' @ fmt_d i))
      else if math_IsInf freq 0 then
        Some (NewValidationError ''Frequencies''
               (''infinite frequency found at index '' @ fmt_d i))
      else None)"

definition ValidateComplexSignal :: "ComplexSignal \<Rightarrow> error option" where
  "ValidateComplexSignal signal =
     (if length (Values_c signal) = 0 then
        Some (NewValidationError ''Values'' ''complex signal values cannot be empty'')
      else if length (Frequencies_c signal) = 0 then
        Some (NewValidationError ''Frequencies'' ''frequencies cannot be empty'')
      else if length (Values_c signal) \<noteq> length (Frequencies_c signal) then
        Some (NewValidationError ''Length''
               ''values and frequencies must have the same length'')
      else if IsZero (Timestamp_c signal) then
        Some (NewValidationError ''Timestamp'' ''timestamp cannot be zero'')
      else
        (case for_range 0 check_complex_value (Values_c signal) of
           Some err \<Rightarrow> Some err
         | None \<Rightarrow> for_range 0 check_frequency (Frequencies_c signal)))"

definition check_positive :: "nat \<Rightarrow> float64 \<Rightarrow> error option" where
  "check_positive i freq =
     (if flt freq (Finite 0) then
        Some (NewValidationError ''Frequencies''
               (''negative frequency found at index '' @ fmt_d i))
      else None)"

definition ValidatePositiveFrequencySignal :: "ComplexSignal \<Rightarrow> error option" where
  "ValidatePositiveFrequencySignal signal =
     (case ValidateComplexSignal signal of
        Some err \<Rightarrow> Some err
      | None \<Rightarrow> for_range 0 check_positive (Frequencies_c signal))"

definition check_impedance :: "nat \<Rightarrow> complex128 \<Rightarrow> error option" where
  "check_impedance i imp =
     (if cmplx_IsNaN imp then
        Some (NewValidationError ''Impedance''
               (''NaN impedance value found at index '' @ fmt_d i))
      else if cmplx_IsInf imp then
        Some (NewValidationError ''Impedance''
               (''infinite impedance value found at index '' @ fmt_d i))
      else None)"

definition ValidateImpedanceData :: "ImpedanceData \<Rightarrow> error option" where
  "ValidateImpedanceData data =
     (if length (Impedance data) = 0 then
        Some (NewValidationError ''Impedance'' ''impedance values cannot be empty'')
      else if length (Frequencies_z data) = 0 then
        Some (NewValidationError ''Frequencies'' ''frequencies cannot be empty'')
      else if length (Impedance data) \<noteq> length (Frequencies_z data) then
        Some (NewValidationError ''Length''
               ''impedance and frequencies must have the same length'')
      else if length (Magnitude data) > 0 \<and> length (Magnitude data) \<noteq> length (Impedance data) then
        Some (NewValidationError ''Magnitude'' ''magnitude length must match impedance length'')
      else if length (Phase data) > 0 \<and> length (Phase data) \<noteq> length (Impedance data) then
        Some (NewValidationError ''Phase'' ''phase length must match impedance length'')
      else if IsZero (Timestamp_z data) then
        Some (NewValidationError ''Timestamp'' ''timestamp cannot be zero'')
      else for_range 0 check_impedance (Impedance data))"

definition ValidateSignalsMatch :: "Signal \<Rightarrow> Signal \<Rightarrow> error option" where
  "ValidateSignalsMatch voltageSignal currentSignal =
     (if length (Values voltageSignal) \<noteq> length (Values currentSignal) then
        Some ErrMismatchedSignalLength
      else if fne (SampleRate voltageSignal) (SampleRate currentSignal) then
        Some ErrMismatchedSampleRate
      else
        (let timeDiff = Sub (Timestamp voltageSignal) (Timestamp currentSignal)
         in if fgt (math_Abs (Seconds timeDiff)) (Finite (1 / 10)) then
              Some (NewValidationError ''Timestamp''
                     ''voltage and current signals have significantly different timestamps'')
            else None))"

section \<open>Package fft: the processor\<close>

definition czero :: complex128 where
  "czero = Complex128 (Finite 0) (Finite 0)"

text \<open>
  The body of the butterfly loop of \<^verbatim>\<open>computeFFT\<close>, run over the indices
  \<open>k = 0, ..., n/2 - 1\<close>; \<open>result\<close> is the slice being filled. The untyped constant
  \<^verbatim>\<open>-2 * math.Pi\<close> is one float64 value.
\<close>

primrec fft_loop ::
  "nat \<Rightarrow> complex128 list \<Rightarrow> complex128 list \<Rightarrow> nat list \<Rightarrow> complex128 list
     \<Rightarrow> error + complex128 list" where
  "fft_loop n evenFFT oddFFT [] result = Inr result"
| "fft_loop n evenFFT oddFFT (k # ks) result =
     (let angle = fdiv (fmul (Finite (- 2 * pi)) (float64_of_int (int k))) (float64_of_int (int n))
      in if math_IsNaN angle \<or> math_IsInf angle 0 then
           Inl (NewProcessingError ''FFT computation''
                  (Errorf (''invalid angle at k='' @ fmt_d k)))
         else
           (let t = cmul (cmplx_Exp (Complex128 (Finite 0) angle)) (oddFFT ! k)
            in fft_loop n evenFFT oddFFT ks
                 (result[k := cadd (evenFFT ! k) t, k + n div 2 := csub (evenFFT ! k) t])))"

text \<open>The inner loop of \<^verbatim>\<open>dft\<close> over \<open>j\<close>, accumulating \<open>sum\<close> in \<open>acc\<close>.\<close>

primrec dft_sum ::
  "complex128 list \<Rightarrow> nat \<Rightarrow> nat \<Rightarrow> nat list \<Rightarrow> complex128 \<Rightarrow> error + complex128" where
  "dft_sum x n k [] acc = Inr acc"
| "dft_sum x n k (j # js) acc =
     (let angle = fdiv (fmul (fmul (Finite (- 2 * pi)) (float64_of_int (int k)))
                          (float64_of_int (int j)))
                    (float64_of_int (int n))
      in if math_IsNaN angle \<or> math_IsInf angle 0 then
           Inl (NewProcessingError ''DFT computation''
                  (Errorf (''invalid angle at k='' @ fmt_d k @ '', j='' @ fmt_d j)))
         else dft_sum x n k js (cadd acc (cmul (x ! j) (cmplx_Exp (Complex128 (Finite 0) angle)))))"

text \<open>The outer loop of \<^verbatim>\<open>dft\<close> over \<open>k\<close>.\<close>

primrec dft_loop ::
  "complex128 list \<Rightarrow> nat \<Rightarrow> nat list \<Rightarrow> complex128 list \<Rightarrow> error + complex128 list" where
  "dft_loop x n [] result = Inr result"
| "dft_loop x n (k # ks) result =
     (case dft_sum x n k [0..<n] czero of
        Inl err \<Rightarrow> Inl err
      | Inr acc \<Rightarrow> dft_loop x n ks (result[k := acc]))"

definition dft :: "complex128 list \<Rightarrow> error + complex128 list" where
  "dft x =
     (let n = length x
      in if n \<le> 0 then Inl ErrInvalidSignalLength
         else dft_loop x n [0..<n] (replicate n czero))"

text \<open>
  The recursion of \<^verbatim>\<open>computeFFT\<close>. Every index read is in range, so that no bounds check
  of Go fails: \<open>x[2*i]\<close> and \<open>x[2*i+1]\<close> for \<open>i < n/2\<close> with \<open>n\<close> even, \<open>x[j]\<close> for \<open>j < n\<close>,
  and \<open>evenFFT[k]\<close>, \<open>oddFFT[k]\<close> for \<open>k < n/2\<close> because a transform is as long as its
  input (lemma \<open>computeFFT_length\<close> below).
\<close>

function computeFFT :: "complex128 list \<Rightarrow> error + complex128 list" where
  "computeFFT x =
     (let n = length x
      in if n \<le> 0 then Inl ErrInvalidSignalLength
         else if n \<le> 1 then Inr x
         else if n mod 2 \<noteq> 0 then dft x
         else
           (let even_part = map (\<lambda>i. x ! (2 * i)) [0..<n div 2];
                odd_part = map (\<lambda>i. x ! (2 * i + 1)) [0..<n div 2]
            in case computeFFT even_part of
                 Inl err \<Rightarrow> Inl err
               | Inr evenFFT \<Rightarrow>
                   (case computeFFT odd_part of
                      Inl err \<Rightarrow> Inl err
                    | Inr oddFFT \<Rightarrow>
                        fft_loop n evenFFT oddFFT [0..<n div 2] (replicate n czero))))"
  by pat_completeness auto
termination
  by (relation "measure length") auto

declare computeFFT.simps [simp del]

definition generateFrequencies :: "int \<Rightarrow> float64 \<Rightarrow> error + float64 list" where
  "generateFrequencies n sampleRate =
     (if n \<le> 0 then Inl ErrInvalidSignalLength
      else if fle sampleRate (Finite 0) then Inl ErrInvalidSampleRate
      else Inr (map (\<lambda>i. if i < n div 2
                          then fdiv (fmul (float64_of_int i) sampleRate) (float64_of_int n)
                          else fdiv (fmul (float64_of_int (i - n)) sampleRate) (float64_of_int n))
                  [0..n - 1]))"

definition ProcessSignal :: "Signal \<Rightarrow> error + ComplexSignal" where
  "ProcessSignal sig =
     (case ValidateSignal sig of
        Some err \<Rightarrow> Inl (NewProcessingError ''signal validation'' err)
      | None \<Rightarrow>
          (let n = length (Values sig)
           in if n = 0 then Inl (NewProcessingError ''FFT processing'' ErrInvalidSignalLength)
              else
                (let complexValues = map (\<lambda>val. Complex128 val (Finite 0)) (Values sig)
                 in case computeFFT complexValues of
                      Inl err \<Rightarrow> Inl (NewProcessingError ''FFT computation'' err)
                    | Inr fftResult \<Rightarrow>
                        (case generateFrequencies (int n) (SampleRate sig) of
                           Inl err \<Rightarrow> Inl (NewProcessingError ''frequency generation'' err)
                         | Inr frequencies \<Rightarrow>
                             (let result = \<lparr>Timestamp_c = Timestamp sig,
                                            Values_c = fftResult,
                                            Frequencies_c = frequencies\<rparr>
                              in case ValidateComplexSignal result of
                                   Some err \<Rightarrow> Inl (NewProcessingError ''result validation'' err)
                                 | None \<Rightarrow> Inr result)))))"

text \<open>
  The slices \<^verbatim>\<open>Values[:halfN]\<close> and \<^verbatim>\<open>Frequencies[:halfN]\<close> are taken after validation, when
  both sequences have the same length \<open>n \<ge> halfN\<close>.
\<close>

definition GetPositiveFrequencies :: "ComplexSignal \<Rightarrow> error + ComplexSignal" where
  "GetPositiveFrequencies complexSignal =
     (case ValidateComplexSignal complexSignal of
        Some err \<Rightarrow> Inl (NewProcessingError ''input validation'' err)
      | None \<Rightarrow>
          (let n = length (Values_c complexSignal)
           in if n = 0 then Inl ErrInvalidSignalLength
              else
                (let halfN = (if n div 2 = 0 then 1 else n div 2);
                     result = \<lparr>Timestamp_c = Timestamp_c complexSignal,
                               Values_c = take halfN (Values_c complexSignal),
                               Frequencies_c = take halfN (Frequencies_c complexSignal)\<rparr>
                 in case ValidatePositiveFrequencySignal result of
                      Some err \<Rightarrow> Inl (NewProcessingError ''result validation'' err)
                    | None \<Rightarrow> Inr result)))"

section \<open>Package impedance: the calculator\<close>

definition ValidateSignals :: "Signal \<Rightarrow> Signal \<Rightarrow> error option" where
  "ValidateSignals voltageSignal currentSignal =
     (case ValidateSignal voltageSignal of
        Some err \<Rightarrow> Some (NewValidationError ''VoltageSignal'' (Error err))
      | None \<Rightarrow>
          (case ValidateSignal currentSignal of
             Some err \<Rightarrow> Some (NewValidationError ''CurrentSignal'' (Error err))
           | None \<Rightarrow> ValidateSignalsMatch voltageSignal currentSignal))"

text \<open>
  The division loop of \<^verbatim>\<open>CalculateImpedance\<close> over the bin indices; \<open>impedance\<close> is the
  slice being filled.
\<close>

primrec impedance_loop ::
  "complex128 list \<Rightarrow> complex128 list \<Rightarrow> nat list \<Rightarrow> complex128 list
     \<Rightarrow> error + complex128 list" where
  "impedance_loop voltageValues currentValues [] impedance = Inr impedance"
| "impedance_loop voltageValues currentValues (i # rest) impedance =
     (let currentMagnitude = cmplx_Abs (currentValues ! i)
      in if flt currentMagnitude (Finite (1 / 10 ^ 10)) then
           impedance_loop voltageValues currentValues rest
             (impedance[i := Complex128 (Finite 0) (Finite 0)])
         else
           (let z = complex128div (voltageValues ! i) (currentValues ! i)
            in if cmplx_IsNaN z \<or> cmplx_IsInf z then
                 Inl (NewProcessingError ''impedance calculation''
                        (NewValidationError ''Impedance''
                           (''invalid impedance value at frequency index '' @ fmt_d i)))
               else impedance_loop voltageValues currentValues rest (impedance[i := z])))"

definition CalculateImpedance :: "Signal \<Rightarrow> Signal \<Rightarrow> error + ImpedanceData" where
  "CalculateImpedance voltageSignal currentSignal =
     (case ValidateSignals voltageSignal currentSignal of
        Some err \<Rightarrow> Inl (NewProcessingError ''signal validation'' err)
      | None \<Rightarrow>
     (case ProcessSignal voltageSignal of
        Inl err \<Rightarrow> Inl (NewProcessingError ''voltage FFT processing'' err)
      | Inr voltageFull \<Rightarrow>
     (case ProcessSignal currentSignal of
        Inl err \<Rightarrow> Inl (NewProcessingError ''current FFT processing'' err)
      | Inr currentFull \<Rightarrow>
     (case GetPositiveFrequencies voltageFull of
        Inl err \<Rightarrow> Inl (NewProcessingError ''voltage positive frequencies'' err)
      | Inr voltageFFT \<Rightarrow>
     (case GetPositiveFrequencies currentFull of
        Inl err \<Rightarrow> Inl (NewProcessingError ''current positive frequencies'' err)
      | Inr currentFFT \<Rightarrow>
          if length (Values_c voltageFFT) \<noteq> length (Values_c currentFFT) then
            Inl (NewProcessingError ''impedance calculation'' ErrMismatchedSignalLength)
          else
            (case impedance_loop (Values_c voltageFFT) (Values_c currentFFT)
                    [0..<length (Values_c voltageFFT)]
                    (replicate (length (Values_c voltageFFT)) czero) of
               Inl err \<Rightarrow> Inl err
             | Inr impedance \<Rightarrow>
                 (let impedanceData = \<lparr>Timestamp_z = Timestamp voltageSignal,
                                       Impedance = impedance,
                                       Frequencies_z = Frequencies_c voltageFFT,
                                       Magnitude = [],
                                       Phase = []\<rparr>;
                      (magnitude, phase) = CalculateMagnitudePhase impedanceData;
                      impedanceData = impedanceData\<lparr>Magnitude := magnitude, Phase := phase\<rparr>
                  in case ValidateImpedanceData impedanceData of
                       Some err \<Rightarrow> Inl (NewProcessingError ''impedance data validation'' err)
                     | None \<Rightarrow> Inr impedanceData)))))))"

section \<open>Magnitudes\<close>

text \<open>A complex value whose two parts are finite and at most \<open>M\<close> in magnitude.\<close>

fun bounded_c :: "real \<Rightarrow> complex128 \<Rightarrow> bool" where
  "bounded_c M (Complex128 (Finite a) (Finite b)) = (\<bar>a\<bar> \<le> M \<and> \<bar>b\<bar> \<le> M)"
| "bounded_c M z = False"

section \<open>Test signals\<close>

definition cone :: complex128 where
  "cone = Complex128 (Finite 1) (Finite 0)"

text \<open>
  The DC test of the impedance calculator: voltage \<open>[2,0,0,0]\<close> and current \<open>[1,0,0,0]\<close>
  at sample rate 4, the current stamped 50 ms after the voltage.
\<close>

definition dc_voltage :: Signal where
  "dc_voltage = \<lparr>Timestamp = 1000000000,
                  Values = [Finite 2, Finite 0, Finite 0, Finite 0],
                  SampleRate = Finite 4\<rparr>"

definition dc_current :: Signal where
  "dc_current = \<lparr>Timestamp = 1050000000,
                  Values = [Finite 1, Finite 0, Finite 0, Finite 0],
                  SampleRate = Finite 4\<rparr>"

definition dc_impedance :: ImpedanceData where
  "dc_impedance = \<lparr>Timestamp_z = 1000000000,
                    Impedance = [Complex128 (Finite 2) (Finite 0), Complex128 (Finite 2) (Finite 0)],
                    Frequencies_z = [Finite 0, Finite 1],
                    Magnitude = [Finite 2, Finite 2],
                    Phase = [Finite 0, Finite 0]\<rparr>"

text \<open>The impulse \<open>[1,0,0,0]\<close> at sample rate 4 and its spectrum.\<close>

definition impulse :: Signal where
  "impulse = \<lparr>Timestamp = 1000000000,
               Values = [Finite 1, Finite 0, Finite 0, Finite 0],
               SampleRate = Finite 4\<rparr>"

definition impulse_spectrum :: ComplexSignal where
  "impulse_spectrum = \<lparr>Timestamp_c = 1000000000,
                        Values_c = [cone, cone, cone, cone],
                        Frequencies_c = [Finite 0, Finite 1, Finite (- 2), Finite (- 1)]\<rparr>"

text \<open>A valid signal whose two samples are \<open>2^1023\<close> (in Go, \<^verbatim>\<open>0x1p1023\<close>).\<close>

definition big_signal :: Signal where
  "big_signal = \<lparr>Timestamp = 1000000000,
                  Values = [Finite (2 ^ 1023), Finite (2 ^ 1023)],
                  SampleRate = Finite 1\<rparr>"

text \<open>The full spectrum of the processor's own test, and one whose bins are listed in
  ascending order of frequency.\<close>

definition test_spectrum :: ComplexSignal where
  "test_spectrum = \<lparr>Timestamp_c = 1000000000,
                     Values_c = [Complex128 (Finite 1) (Finite 0), Complex128 (Finite 2) (Finite 1),
                                 Complex128 (Finite 3) (Finite 2), Complex128 (Finite 4) (Finite 3)],
                     Frequencies_c = [Finite 0, Finite 100, Finite 200, Finite 300]\<rparr>"

definition centred_spectrum :: ComplexSignal where
  "centred_spectrum = \<lparr>Timestamp_c = 1000000000,
                        Values_c = [cone, cone, cone, cone],
                        Frequencies_c = [Finite (- 2), Finite (- 1), Finite 0, Finite 1]\<rparr>"

text \<open>The three-sample signal of the processor's test.\<close>

definition three_samples :: Signal where
  "three_samples = \<lparr>Timestamp = 1000000000,
                     Values = [Finite 1, Finite 2, Finite 3],
                     SampleRate = Finite 3\<rparr>"

text \<open>A signal of one sample, and the single-value spectrum of the processor's test.\<close>

definition single_sample :: Signal where
  "single_sample = \<lparr>Timestamp = 1000000000, Values = [Finite 1], SampleRate = Finite 4\<rparr>"

definition single_value_spectrum :: ComplexSignal where
  "single_value_spectrum = \<lparr>Timestamp_c = 1000000000,
                             Values_c = [Complex128 (Finite 1) (Finite 0)],
                             Frequencies_c = [Finite 0]\<rparr>"

text \<open>The zero-current test of the impedance calculator.\<close>

definition zc_voltage :: Signal where
  "zc_voltage = \<lparr>Timestamp = 1000000000,
                  Values = [Finite 1, Finite 0, Finite 1, Finite 0],
                  SampleRate = Finite 4\<rparr>"

definition zc_current :: Signal where
  "zc_current = \<lparr>Timestamp = 1000000000,
                  Values = [Finite 0, Finite 0, Finite 0, Finite 0],
                  SampleRate = Finite 4\<rparr>"

definition zc_impedance :: ImpedanceData where
  "zc_impedance = \<lparr>Timestamp_z = 1000000000,
                    Impedance = [Complex128 (Finite 0) (Finite 0), Complex128 (Finite 0) (Finite 0)],
                    Frequencies_z = [Finite 0, Finite 1],
                    Magnitude = [Finite 0, Finite 0],
                    Phase = [Finite 0, Finite 0]\<rparr>"

text \<open>
  Signals that do not match the DC voltage: one sample fewer; another sample rate; a
  timestamp 150 ms later; one sample fewer and another sample rate.
\<close>

definition short_current :: Signal where
  "short_current = \<lparr>Timestamp = 1000000000,
                     Values = [Finite 1, Finite 0, Finite 0],
                     SampleRate = Finite 4\<rparr>"

definition fast_current :: Signal where
  "fast_current = \<lparr>Timestamp = 1000000000,
                    Values = [Finite 1, Finite 0, Finite 0, Finite 0],
                    SampleRate = Finite 8\<rparr>"

definition late_current :: Signal where
  "late_current = \<lparr>Timestamp = 1150000000,
                    Values = [Finite 1, Finite 0, Finite 0, Finite 0],
                    SampleRate = Finite 4\<rparr>"

definition short_fast_current :: Signal where
  "short_fast_current = \<lparr>Timestamp = 1000000000,
                          Values = [Finite 1, Finite 0, Finite 0],
                          SampleRate = Finite 8\<rparr>"

text \<open>A signal whose sample rate is NaN.\<close>

definition nan_rate_signal :: Signal where
  "nan_rate_signal = \<lparr>Timestamp = 1000000000, Values = [Finite 1], SampleRate = NaN\<rparr>"

text \<open>
  A voltage of \<open>2^1000\<close> against a current of \<open>2^-30\<close> (above the \<open>1e-10\<close> guard): the
  quotient \<open>2^1030\<close> is beyond the float64 range.
\<close>

definition large_voltage :: Signal where
  "large_voltage = \<lparr>Timestamp = 1000000000,
                     Values = [Finite (2 ^ 1000), Finite 0, Finite 0, Finite 0],
                     SampleRate = Finite 4\<rparr>"

definition small_current :: Signal where
  "small_current = \<lparr>Timestamp = 1000000000,
                     Values = [Finite (1 / 2 ^ 30), Finite 0, Finite 0, Finite 0],
                     SampleRate = Finite 4\<rparr>"

section \<open>Facts about the arithmetic\<close>

lemma overflow_threshold_gt: "2 ^ 1000 < overflow_threshold"
  by (simp add: overflow_threshold_def)

lemma rnd_Finite: "\<bar>r\<bar> \<le> 2 ^ 1000 \<Longrightarrow> rnd r = Finite r"
  using overflow_threshold_gt by (auto simp: rnd_def)

lemma rnd_not_NaN [simp]: "rnd r \<noteq> NaN"
  by (simp add: rnd_def)

lemma float64_of_int_Finite:
  "\<bar>i\<bar> \<le> 2 ^ 63 \<Longrightarrow> float64_of_int i = Finite (of_int i)"
proof -
  assume "\<bar>i\<bar> \<le> 2 ^ 63"
  then have "\<bar>real_of_int i\<bar> \<le> 2 ^ 63"
    by (metis of_int_abs of_int_le_iff of_int_numeral of_int_power)
  also have "\<dots> \<le> (2::real) ^ 1000" by simp
  finally show ?thesis by (simp add: float64_of_int_def rnd_Finite)
qed

lemma two_pi_le: "2 * pi \<le> 8"
  using pi_less_4 by simp

lemma rnd_div_Finite:
  assumes "\<bar>a\<bar> \<le> 2 ^ 1000" "1 \<le> b"
  shows "rnd (a / b) = Finite (a / b)"
proof -
  have "\<bar>a / b\<bar> = \<bar>a\<bar> / b" using assms by simp
  also have "\<dots> \<le> \<bar>a\<bar> / 1" using assms by (intro divide_left_mono) auto
  finally show ?thesis using assms by (intro rnd_Finite) simp
qed

lemma fft_angle_Finite:
  assumes "0 \<le> k" "k < n" "n \<le> 2 ^ 63"
  shows "fdiv (fmul (Finite (- (2 * pi))) (float64_of_int k)) (float64_of_int n)
         = Finite (- (2 * pi) * of_int k / of_int n)"
proof -
  have k: "float64_of_int k = Finite (of_int k)" and n: "float64_of_int n = Finite (of_int n)"
    using assms by (auto intro!: float64_of_int_Finite)
  have kb: "real_of_int k \<le> 2 ^ 63" 
    using assms by (metis less_le_trans less_imp_le of_int_le_iff of_int_numeral of_int_power)
  have k0: "0 \<le> real_of_int k" using assms by simp
  have "\<bar>- (2 * pi) * real_of_int k\<bar> = 2 * pi * real_of_int k"
    using k0 by (simp add: abs_mult)
  also have "\<dots> \<le> 8 * 2 ^ 63"
    using two_pi_le kb k0 by (intro mult_mono) auto
  finally have b1: "\<bar>- (2 * pi) * real_of_int k\<bar> \<le> 2 ^ 1000" by simp
  then have m: "rnd (- (2 * pi) * real_of_int k) = Finite (- (2 * pi) * real_of_int k)"
    by (intro rnd_Finite)
  have n1: "1 \<le> real_of_int n" using assms by simp
  have d: "rnd (- (2 * pi) * real_of_int k / real_of_int n)
              = Finite (- (2 * pi) * real_of_int k / real_of_int n)"
    using b1 n1 by (rule rnd_div_Finite)
  show ?thesis using n1 m d by (simp add: k n del: mult_minus_left)
qed

lemma dft_angle_Finite:
  assumes "0 \<le> k" "k < n" "0 \<le> j" "j < n" "n \<le> 2 ^ 63"
  shows "fdiv (fmul (fmul (Finite (- (2 * pi))) (float64_of_int k)) (float64_of_int j))
           (float64_of_int n)
         = Finite (- (2 * pi) * of_int k * of_int j / of_int n)"
proof -
  have k: "float64_of_int k = Finite (of_int k)" and j: "float64_of_int j = Finite (of_int j)"
    and n: "float64_of_int n = Finite (of_int n)"
    using assms by (auto intro!: float64_of_int_Finite)
  have kb: "real_of_int k \<le> 2 ^ 63" 
    using assms by (metis less_le_trans less_imp_le of_int_le_iff of_int_numeral of_int_power)
  have jb: "real_of_int j \<le> 2 ^ 63" 
    using assms by (metis less_le_trans less_imp_le of_int_le_iff of_int_numeral of_int_power)
  have k0: "0 \<le> real_of_int k" and j0: "0 \<le> real_of_int j" using assms by simp_all
  have "\<bar>- (2 * pi) * real_of_int k\<bar> = 2 * pi * real_of_int k"
    using k0 by (simp add: abs_mult)
  also have "\<dots> \<le> 8 * 2 ^ 63"
    using two_pi_le kb k0 by (intro mult_mono) auto
  finally have b0: "\<bar>- (2 * pi) * real_of_int k\<bar> \<le> 8 * 2 ^ 63" .
  then have b1: "\<bar>- (2 * pi) * real_of_int k\<bar> \<le> 2 ^ 1000" by simp
  then have m: "rnd (- (2 * pi) * real_of_int k) = Finite (- (2 * pi) * real_of_int k)"
    by (intro rnd_Finite)
  have "\<bar>- (2 * pi) * real_of_int k * real_of_int j\<bar>
        = \<bar>- (2 * pi) * real_of_int k\<bar> * real_of_int j"
    using j0 by (simp add: abs_mult)
  also have "\<dots> \<le> (8 * 2 ^ 63) * 2 ^ 63"
    using b0 jb j0 by (intro mult_mono) auto
  finally have b2: "\<bar>- (2 * pi) * real_of_int k * real_of_int j\<bar> \<le> 2 ^ 1000" by simp
  then have m2: "rnd (- (2 * pi) * real_of_int k * real_of_int j)
               = Finite (- (2 * pi) * real_of_int k * real_of_int j)"
    by (intro rnd_Finite)
  have n1: "1 \<le> real_of_int n" using assms by simp
  have d: "rnd (- (2 * pi) * real_of_int k * real_of_int j / real_of_int n)
              = Finite (- (2 * pi) * real_of_int k * real_of_int j / real_of_int n)"
    using b2 n1 by (rule rnd_div_Finite)
  show ?thesis using n1 m m2 d by (simp add: k j n del: mult_minus_left)
qed

lemma rnd_unit: "\<bar>r\<bar> \<le> 1 \<Longrightarrow> rnd r = Finite r"
proof -
  assume "\<bar>r\<bar> \<le> 1"
  also have "(1::real) \<le> 2 ^ 1000" by (rule one_le_power) simp
  finally show ?thesis by (rule rnd_Finite)
qed

lemma rnd_0 [simp]: "rnd 0 = Finite 0" by (simp add: rnd_unit)
lemma rnd_1 [simp]: "rnd 1 = Finite 1" by (simp add: rnd_unit)

lemma cmplx_Exp_Finite:
  "cmplx_Exp (Complex128 (Finite 0) (Finite a)) = Complex128 (Finite (cos a)) (Finite (sin a))"
  by (simp add: cmplx_Exp_def rnd_unit)

lemma cmul_czero_right:
  "cmul (Complex128 (Finite c) (Finite s)) czero = czero"
  by (simp add: cmul_def czero_def fsub_def)

lemma cmul_czero_left:
  "cmul czero (Complex128 (Finite c) (Finite s)) = czero"
  by (simp add: cmul_def czero_def fsub_def)

lemma cadd_czero [simp]: "cadd czero czero = czero"
  by (simp add: cadd_def czero_def)

lemma csub_czero [simp]: "csub czero czero = czero"
  by (simp add: csub_def czero_def fsub_def)

lemma cmplx_Abs_czero [simp]: "cmplx_Abs czero = Finite 0"
  by (simp add: cmplx_Abs_def czero_def)

lemma not_finite_cases: "x \<noteq> NaN \<Longrightarrow> x \<noteq> PosInf \<Longrightarrow> x \<noteq> NegInf \<Longrightarrow> \<exists>a. x = Finite a"
  by (cases x) auto

section \<open>Loops\<close>

lemma for_range_None_iff:
  "for_range i chk xs = None \<longleftrightarrow> (\<forall>k<length xs. chk (i + k) (xs ! k) = None)"
proof (induction xs arbitrary: i)
  case Nil
  show ?case by simp
next
  case (Cons v vs)
  show ?case
    by (auto simp: Cons.IH less_Suc_eq_0_disj split: option.splits)
qed

lemma fft_loop_length:
  "fft_loop n evenFFT oddFFT ks result = Inr r \<Longrightarrow> length r = length result"
  by (induction ks arbitrary: result) (auto simp: Let_def split: if_splits)

lemma int_bound: "n < 2 ^ 63 \<Longrightarrow> int n \<le> 2 ^ 63"
proof -
  assume "n < 2 ^ 63"
  then have "int n < int (2 ^ 63)" by (simp only: of_nat_less_iff)
  then show ?thesis by simp
qed

lemma fft_angle_nat:
  assumes "k < n" "n < 2 ^ 63"
  shows "\<exists>a. fdiv (fmul (Finite (- 2 * pi)) (float64_of_int (int k))) (float64_of_int (int n))
             = Finite a"
proof -
  have "fdiv (fmul (Finite (- (2 * pi))) (float64_of_int (int k))) (float64_of_int (int n))
      = Finite (- (2 * pi) * of_int (int k) / of_int (int n))"
    using assms int_bound [of n] by (intro fft_angle_Finite) auto
  then show ?thesis by simp
qed

lemma dft_angle_nat:
  assumes "k < n" "j < n" "n < 2 ^ 63"
  shows "\<exists>a. fdiv (fmul (fmul (Finite (- 2 * pi)) (float64_of_int (int k)))
                       (float64_of_int (int j)))
                 (float64_of_int (int n))
             = Finite a"
proof -
  have "fdiv (fmul (fmul (Finite (- (2 * pi))) (float64_of_int (int k))) (float64_of_int (int j)))
           (float64_of_int (int n))
         = Finite (- (2 * pi) * of_int (int k) * of_int (int j) / of_int (int n))"
    using assms int_bound [of n] by (intro dft_angle_Finite) auto
  then show ?thesis by simp
qed

lemma fft_loop_ok:
  assumes "\<forall>k\<in>set ks. k < n" "n < 2 ^ 63"
  shows "\<exists>r. fft_loop n evenFFT oddFFT ks result = Inr r"
  using assms(1)
proof (induction ks arbitrary: result)
  case Nil
  show ?case by simp
next
  case (Cons k ks)
  obtain a where "fdiv (fmul (Finite (- 2 * pi)) (float64_of_int (int k))) (float64_of_int (int n))
             = Finite a"
    using fft_angle_nat [of k n] Cons.prems assms(2) by auto
  then show ?case using Cons by (simp add: math_IsNaN_def math_IsInf_def Let_def)
qed

lemma dft_sum_ok:
  assumes "\<forall>j\<in>set js. j < n" "k < n" "n < 2 ^ 63"
  shows "\<exists>r. dft_sum x n k js acc = Inr r"
  using assms(1)
proof (induction js arbitrary: acc)
  case Nil
  show ?case by simp
next
  case (Cons j js)
  obtain a where "fdiv (fmul (fmul (Finite (- 2 * pi)) (float64_of_int (int k)))
                       (float64_of_int (int j)))
                 (float64_of_int (int n)) = Finite a"
    using dft_angle_nat [of k n j] Cons.prems assms(2,3) by auto
  then show ?case using Cons by (simp add: math_IsNaN_def math_IsInf_def Let_def)
qed

lemma dft_loop_length:
  "dft_loop x n ks result = Inr r \<Longrightarrow> length r = length result"
  by (induction ks arbitrary: result) (auto split: sum.splits)

lemma dft_loop_ok:
  assumes "\<forall>k\<in>set ks. k < n" "n < 2 ^ 63"
  shows "\<exists>r. dft_loop x n ks result = Inr r"
  using assms(1)
proof (induction ks arbitrary: result)
  case Nil
  show ?case by simp
next
  case (Cons k ks)
  obtain s where "dft_sum x n k [0..<n] czero = Inr s"
    using dft_sum_ok [of "[0..<n]" n k x czero] Cons.prems assms(2) by auto
  then show ?case using Cons by simp
qed

lemma dft_length: "dft x = Inr y \<Longrightarrow> length y = length x"
  by (auto simp: dft_def Let_def dest: dft_loop_length split: if_splits)

lemma dft_ok: "x \<noteq> [] \<Longrightarrow> length x < 2 ^ 63 \<Longrightarrow> \<exists>y. dft x = Inr y"
  using dft_loop_ok [of "[0..<length x]" "length x" x "replicate (length x) czero"]
  by (simp add: dft_def Let_def)

lemma computeFFT_length: "computeFFT x = Inr y \<Longrightarrow> length y = length x"
proof (induction x arbitrary: y rule: computeFFT.induct)
  case (1 x)
  show ?case
    using "1.prems"
    by (subst (asm) computeFFT.simps)
       (auto simp: Let_def dest: dft_length fft_loop_length split: if_splits sum.splits)
qed

lemma computeFFT_ok: "x \<noteq> [] \<Longrightarrow> length x < 2 ^ 63 \<Longrightarrow> \<exists>y. computeFFT x = Inr y"
proof (induction x rule: computeFFT.induct)
  case (1 x)
  let ?n = "length x"
  show ?case
  proof (cases "?n \<le> 1 \<or> ?n mod 2 \<noteq> 0")
    case True
    then show ?thesis
      using "1.prems" dft_ok [of x] by (subst computeFFT.simps) (auto simp: Let_def)
  next
    case False
    then have n: "\<not> ?n \<le> 0" "\<not> ?n \<le> 1" "\<not> ?n mod 2 \<noteq> 0" by auto
    let ?e = "map (\<lambda>i. x ! (2 * i)) [0..<?n div 2]"
    let ?o = "map (\<lambda>i. x ! (2 * i + 1)) [0..<?n div 2]"
    have ne: "?e \<noteq> []" "?o \<noteq> []" using n by auto
    have len: "length ?e < 2 ^ 63" "length ?o < 2 ^ 63" using "1.prems" by auto
    obtain ye where ye: "computeFFT ?e = Inr ye"
      using "1.IH"(1) [OF refl n refl refl ne(1) len(1)] by auto
    obtain yo where yo: "computeFFT ?o = Inr yo"
      using "1.IH"(2) [OF refl n refl refl _ ne(2) len(2)] ye by auto
    have "\<forall>k\<in>set [0..<?n div 2]. k < ?n" by auto
    then obtain r where "fft_loop ?n ye yo [0..<?n div 2] (replicate ?n czero) = Inr r"
      using fft_loop_ok [of "[0..<?n div 2]" ?n ye yo "replicate ?n czero"] "1.prems"(2) by blast
    then show ?thesis
      using n ye yo by (subst computeFFT.simps) (simp add: Let_def)
  qed
qed

section \<open>Transforms of length 1, 2 and 4\<close>

lemma computeFFT_1: "computeFFT [a] = Inr [a]"
  by (subst computeFFT.simps) simp

lemma fft_angle_0:
  "0 < n \<Longrightarrow> n < 2 ^ 63 \<Longrightarrow>
   fdiv (fmul (Finite (- (2 * pi))) (float64_of_int 0)) (float64_of_int (int n)) = Finite 0"
  using fft_angle_Finite [of 0 "int n"] int_bound [of n] by simp

lemma computeFFT_2:
  "computeFFT [a, b] = Inr [cadd a (cmul cone b), csub a (cmul cone b)]"
proof -
  have "fdiv (fmul (Finite (- (2 * pi))) (float64_of_int 0)) (float64_of_int (int 2)) = Finite 0"
    by (rule fft_angle_0) simp_all
  then show ?thesis
    by (subst computeFFT.simps)
       (simp add: computeFFT_1 Let_def math_IsNaN_def math_IsInf_def cmplx_Exp_Finite cone_def)
qed

lemma computeFFT_4:
  "computeFFT [a, b, c, d] =
     Inr [cadd (cadd a (cmul cone c)) (cmul cone (cadd b (cmul cone d))),
          cadd (csub a (cmul cone c))
               (cmul (Complex128 (Finite 0) (Finite (- 1))) (csub b (cmul cone d))),
          csub (cadd a (cmul cone c)) (cmul cone (cadd b (cmul cone d))),
          csub (csub a (cmul cone c))
               (cmul (Complex128 (Finite 0) (Finite (- 1))) (csub b (cmul cone d)))]"
proof -
  have a0: "fdiv (fmul (Finite (- (2 * pi))) (float64_of_int 0)) (float64_of_int (int 4)) = Finite 0"
    by (rule fft_angle_0) simp_all
  have "fdiv (fmul (Finite (- (2 * pi))) (float64_of_int 1)) (float64_of_int 4)
        = Finite (- (2 * pi) * of_int 1 / of_int 4)"
    by (rule fft_angle_Finite) simp_all
  then have a1: "fdiv (fmul (Finite (- (2 * pi))) (float64_of_int 1)) (float64_of_int 4)
        = Finite (- (pi / 2))" by simp
  have up: "[0..<2] = [0, 1]" by (simp add: upt_rec)
  show ?thesis
    using a0 a1
    by (subst computeFFT.simps)
       (simp add: computeFFT_2 Let_def math_IsNaN_def math_IsInf_def cmplx_Exp_Finite cone_def up)
qed

section \<open>Runs of the test signals\<close>

lemma rnd_numeral [simp]:
  "rnd (numeral k) = (if overflow_threshold \<le> numeral k then PosInf else Finite (numeral k))"
  by (auto simp: rnd_def overflow_threshold_def)

lemma rnd_neg_numeral [simp]:
  "rnd (- numeral k)
   = (if overflow_threshold \<le> numeral k then NegInf else Finite (- numeral k))"
  by (auto simp: rnd_def overflow_threshold_def)

lemma rnd_m1 [simp]: "rnd (- 1) = Finite (- 1)" by (simp add: rnd_unit)

lemma upto_0_3: "[0..3::int] = [0, 1, 2, 3]"
  by (simp add: upto_rec1)

lemma generateFrequencies_4_4:
  "generateFrequencies 4 (Finite 4) = Inr [Finite 0, Finite 1, Finite (- 2), Finite (- 1)]"
  by (simp add: generateFrequencies_def fle_def feq_def upto_0_3 float64_of_int_def
        overflow_threshold_def)

lemmas carith = cadd_def csub_def cmul_def fsub_def cone_def czero_def overflow_threshold_def

lemma fmt_d_digit: "n < 10 \<Longrightarrow> fmt_d n = [''0123456789'' ! n]"
  by (subst fmt_d.simps) simp

lemma ProcessSignal_impulse:
  "t \<noteq> 0 \<Longrightarrow>
   ProcessSignal \<lparr>Timestamp = t, Values = [Finite 1, Finite 0, Finite 0, Finite 0],
                  SampleRate = Finite 4\<rparr>
   = Inr \<lparr>Timestamp_c = t,
          Values_c = [cone, cone, cone, cone],
          Frequencies_c = [Finite 0, Finite 1, Finite (- 2), Finite (- 1)]\<rparr>"
  by (simp add: ProcessSignal_def ValidateSignal_def ValidateComplexSignal_def
      check_value_def check_complex_value_def check_frequency_def
      math_IsNaN_def math_IsInf_def cmplx_IsNaN_def cmplx_IsInf_def IsZero_def
      fle_def feq_def computeFFT_4 generateFrequencies_4_4 carith)

lemmas validate_eval =
  ValidateSignal_def ValidateComplexSignal_def ValidatePositiveFrequencySignal_def
  ValidateImpedanceData_def ValidateSignals_def ValidateSignalsMatch_def
  check_value_def check_complex_value_def check_frequency_def check_positive_def
  check_impedance_def math_IsNaN_def math_IsInf_def cmplx_IsNaN_def cmplx_IsInf_def IsZero_def
  fle_def feq_def fne_def fgt_def fge_def NewValidationError_def NewProcessingError_def

lemma Seconds_small:
  "Seconds (- 50000000) = Finite (- (1 / 20))"
  by (simp add: Seconds_def go_quot_def go_rem_def Second_def float64_of_int_def rnd_Finite
        overflow_threshold_def)

lemma ValidateSignals_dc: "ValidateSignals dc_voltage dc_current = None"
  by (simp add: dc_voltage_def dc_current_def validate_eval Sub_def minDuration_def maxDuration_def
        Seconds_small)

lemma ProcessSignal_dc_voltage:
  "ProcessSignal dc_voltage
   = Inr \<lparr>Timestamp_c = 1000000000,
          Values_c = [Complex128 (Finite 2) (Finite 0), Complex128 (Finite 2) (Finite 0),
                      Complex128 (Finite 2) (Finite 0), Complex128 (Finite 2) (Finite 0)],
          Frequencies_c = [Finite 0, Finite 1, Finite (- 2), Finite (- 1)]\<rparr>"
  by (simp add: dc_voltage_def ProcessSignal_def validate_eval
      computeFFT_4 generateFrequencies_4_4 carith)

lemma ProcessSignal_dc_current:
  "ProcessSignal dc_current
   = Inr \<lparr>Timestamp_c = 1050000000,
          Values_c = [Complex128 (Finite 1) (Finite 0), Complex128 (Finite 1) (Finite 0),
                      Complex128 (Finite 1) (Finite 0), Complex128 (Finite 1) (Finite 0)],
          Frequencies_c = [Finite 0, Finite 1, Finite (- 2), Finite (- 1)]\<rparr>"
  by (simp add: dc_current_def ProcessSignal_def validate_eval
      computeFFT_4 generateFrequencies_4_4 carith)

lemma GetPositiveFrequencies_4:
  "t \<noteq> 0 \<Longrightarrow>
   GetPositiveFrequencies \<lparr>Timestamp_c = t,
          Values_c = [Complex128 (Finite a) (Finite 0), Complex128 (Finite b) (Finite 0),
                      Complex128 (Finite c) (Finite 0), Complex128 (Finite d) (Finite 0)],
          Frequencies_c = [Finite 0, Finite 1, Finite (- 2), Finite (- 1)]\<rparr>
   = Inr \<lparr>Timestamp_c = t,
          Values_c = [Complex128 (Finite a) (Finite 0), Complex128 (Finite b) (Finite 0)],
          Frequencies_c = [Finite 0, Finite 1]\<rparr>"
  by (simp add: GetPositiveFrequencies_def validate_eval Let_def)

lemma sqrt_4: "sqrt 4 = 2"
  using real_sqrt_abs [of 2] by simp

lemma CalculateImpedance_dc:
  "CalculateImpedance dc_voltage dc_current
   = Inr dc_impedance"
  apply (simp add: dc_impedance_def CalculateImpedance_def ValidateSignals_dc
        ProcessSignal_dc_voltage ProcessSignal_dc_current GetPositiveFrequencies_4)
  apply (simp add: cmplx_Abs_def complex128div_def validate_eval CalculateMagnitudePhase_def
        cmplx_Phase_def math_Atan2_def copysign_def sqrt_4 overflow_threshold_def Let_def
        fsub_def czero_def dc_voltage_def)
  done

section \<open>The fields of a computed impedance spectrum\<close>

lemma CalculateImpedance_fields:
  assumes "CalculateImpedance voltageSignal currentSignal = Inr r"
  shows "Timestamp_z r = Timestamp voltageSignal"
    and "Magnitude r = map cmplx_Abs (Impedance r)"
    and "Phase r = map cmplx_Phase (Impedance r)"
  using assms
  by (auto simp: CalculateImpedance_def CalculateMagnitudePhase_def Let_def
           split: option.splits sum.splits if_splits)

section \<open>What a successful transform returns\<close>

lemma fgt_not_fle: "fgt x (Finite 0) \<Longrightarrow> \<not> fle x (Finite 0)"
  by (cases x) (auto simp: fgt_def fle_def feq_def)

lemma generateFrequencies_Inr:
  assumes "generateFrequencies n sampleRate = Inr fs"
  shows "length fs = nat n"
    and "i < nat n \<Longrightarrow>
         fs ! i = (if int i < n div 2
                   then fdiv (fmul (float64_of_int (int i)) sampleRate) (float64_of_int n)
                   else fdiv (fmul (float64_of_int (int i - n)) sampleRate) (float64_of_int n))"
  using assms by (auto simp: generateFrequencies_def split: if_splits)

lemma generateFrequencies_ok:
  "1 \<le> n \<Longrightarrow> \<not> fle sampleRate (Finite 0) \<Longrightarrow> \<exists>fs. generateFrequencies n sampleRate = Inr fs"
  by (simp add: generateFrequencies_def)

lemma ProcessSignal_Inr:
  assumes "ProcessSignal sig = Inr cs"
  shows "ValidateSignal sig = None"
    and "computeFFT (map (\<lambda>val. Complex128 val (Finite 0)) (Values sig)) = Inr (Values_c cs)"
    and "generateFrequencies (int (length (Values sig))) (SampleRate sig) = Inr (Frequencies_c cs)"
    and "Timestamp_c cs = Timestamp sig"
    and "ValidateComplexSignal cs = None"
  using assms
  by (auto simp: ProcessSignal_def Let_def split: option.splits sum.splits if_splits)

section \<open>Validation, characterised\<close>

lemma check_value_None: "check_value i v = None \<longleftrightarrow> (\<exists>a. v = Finite a)"
  by (cases v) (auto simp: check_value_def math_IsNaN_def math_IsInf_def NewValidationError_def)

lemma ValidateSignal_None_iff:
  "ValidateSignal s = None \<longleftrightarrow>
     Values s \<noteq> [] \<and> \<not> fle (SampleRate s) (Finite 0) \<and> \<not> IsZero (Timestamp s) \<and>
     (\<forall>v\<in>set (Values s). \<exists>a. v = Finite a)"
  by (auto simp: ValidateSignal_def for_range_None_iff check_value_None NewValidationError_def
        all_set_conv_all_nth)

lemma ValidateSignal_big: "ValidateSignal big_signal = None"
  by (simp add: big_signal_def validate_eval)

lemma generateFrequencies_2_1:
  "generateFrequencies 2 (Finite 1) = Inr [Finite 0, Finite (- (1 / 2))]"
  by (simp add: generateFrequencies_def fle_def feq_def upto_rec1 float64_of_int_def
      overflow_threshold_def rnd_Finite)

lemma ProcessSignal_big:
  "ProcessSignal big_signal
   = Inl (NewProcessingError ''result validation''
            (NewValidationError ''Values'' ''infinite complex value found at index 0''))"
  by (simp add: ProcessSignal_def ValidateSignal_big)
     (simp add: big_signal_def computeFFT_2 generateFrequencies_2_1 validate_eval carith rnd_def
        fmt_d_digit)

lemma for_range_Some: "for_range i chk xs = Some e \<Longrightarrow> \<exists>k v. chk k v = Some e"
  by (induction xs arbitrary: i) (auto split: option.splits)

lemma ValidateComplexSignal_Some_field:
  assumes "ValidateComplexSignal s = Some e"
    and "Values_c s \<noteq> []" and "length (Values_c s) = length (Frequencies_c s)"
    and "\<not> IsZero (Timestamp_c s)"
  shows "\<exists>msg. e = ValidationError ''Values'' msg \<or> e = ValidationError ''Frequencies'' msg"
proof (cases "for_range 0 check_complex_value (Values_c s)")
  case None
  have "length (Values_c s) \<noteq> 0" "length (Frequencies_c s) \<noteq> 0"
    using assms(2,3) by auto
  then have "for_range 0 check_frequency (Frequencies_c s) = Some e"
    using assms(1,3,4) None by (simp add: ValidateComplexSignal_def)
  then obtain k v where "check_frequency k v = Some e"
    using for_range_Some by blast
  then show ?thesis
    by (auto simp: check_frequency_def NewValidationError_def split: if_splits)
next
  case (Some e')
  have "length (Values_c s) \<noteq> 0" "length (Frequencies_c s) \<noteq> 0"
    using assms(2,3) by auto
  then have "e' = e" using assms(1,3,4) Some by (simp add: ValidateComplexSignal_def)
  then obtain k v where "check_complex_value k v = Some e"
    using for_range_Some Some by blast
  then show ?thesis
    by (auto simp: check_complex_value_def NewValidationError_def split: if_splits)
qed

lemma transform_cases_field:
  assumes "ValidateSignal x = None" and "length (Values x) < 2 ^ 63"
  shows "(\<exists>cs. ProcessSignal x = Inr cs \<and> length (Values_c cs) = length (Values x) \<and>
               length (Frequencies_c cs) = length (Values x)) \<or>
         (\<exists>msg. ProcessSignal x
                  = Inl (ProcessingError ''result validation'' (ValidationError ''Values'' msg)) \<or>
                ProcessSignal x
                  = Inl (ProcessingError ''result validation'' (ValidationError ''Frequencies'' msg)))"
proof -
  let ?cv = "map (\<lambda>val. Complex128 val (Finite 0)) (Values x)"
  let ?n = "length (Values x)"
  have ne: "Values x \<noteq> []" and sr: "\<not> fle (SampleRate x) (Finite 0)"
    and ts: "\<not> IsZero (Timestamp x)"
    using assms(1) by (simp_all add: ValidateSignal_None_iff)
  obtain y where y: "computeFFT ?cv = Inr y"
    using computeFFT_ok [of ?cv] ne assms(2) by auto
  have ly: "length y = ?n" using computeFFT_length [OF y] by simp
  have "1 \<le> int ?n" using ne by (cases "Values x") auto
  then obtain fs where fs: "generateFrequencies (int ?n) (SampleRate x) = Inr fs"
    using generateFrequencies_ok sr by blast
  have lfs: "length fs = ?n" using generateFrequencies_Inr(1) [OF fs] by simp
  let ?r = "\<lparr>Timestamp_c = Timestamp x, Values_c = y, Frequencies_c = fs\<rparr>"
  show ?thesis
  proof (cases "ValidateComplexSignal ?r")
    case None
    then show ?thesis
      using assms(1) ne y fs ly lfs by (simp add: ProcessSignal_def Let_def)
  next
    case (Some e)
    have "y \<noteq> []" using ne ly by auto
    then have "\<exists>msg. e = ValidationError ''Values'' msg \<or> e = ValidationError ''Frequencies'' msg"
      using ValidateComplexSignal_Some_field [OF Some] ly lfs ts by simp
    moreover have "ProcessSignal x = Inl (ProcessingError ''result validation'' e)"
      using assms(1) ne y fs Some by (simp add: ProcessSignal_def Let_def NewProcessingError_def)
    ultimately show ?thesis by auto
  qed
qed

section \<open>Validation of spectra and the half spectrum\<close>

lemma check_complex_value_None:
  "check_complex_value i v = None \<longleftrightarrow> (\<exists>a b. v = Complex128 (Finite a) (Finite b))"
proof (cases v)
  case (Complex128 re im)
  then show ?thesis
    by (cases re; cases im)
       (auto simp: check_complex_value_def cmplx_IsNaN_def cmplx_IsInf_def math_IsNaN_def
          math_IsInf_def NewValidationError_def)
qed

lemma check_frequency_None: "check_frequency i v = None \<longleftrightarrow> (\<exists>a. v = Finite a)"
  by (cases v) (auto simp: check_frequency_def math_IsNaN_def math_IsInf_def NewValidationError_def)

lemma check_positive_None: "check_positive i v = None \<longleftrightarrow> \<not> flt v (Finite 0)"
  by (auto simp: check_positive_def NewValidationError_def)

lemma option_seq_None:
  "(case a of Some err \<Rightarrow> Some err | None \<Rightarrow> b) = None \<longleftrightarrow> a = None \<and> b = None"
  by (cases a) auto

lemma ValidateComplexSignal_None_iff:
  "ValidateComplexSignal s = None \<longleftrightarrow>
     Values_c s \<noteq> [] \<and> length (Values_c s) = length (Frequencies_c s) \<and>
     \<not> IsZero (Timestamp_c s) \<and>
     (\<forall>i<length (Values_c s). \<exists>a b. Values_c s ! i = Complex128 (Finite a) (Finite b)) \<and>
     (\<forall>i<length (Frequencies_c s). \<exists>a. Frequencies_c s ! i = Finite a)"
  by (auto simp: ValidateComplexSignal_def option_seq_None for_range_None_iff
        check_complex_value_None check_frequency_None NewValidationError_def)

lemma ValidatePositiveFrequencySignal_None_iff:
  "ValidatePositiveFrequencySignal s = None \<longleftrightarrow>
     ValidateComplexSignal s = None \<and>
     (\<forall>i<length (Frequencies_c s). \<not> flt (Frequencies_c s ! i) (Finite 0))"
  by (simp add: ValidatePositiveFrequencySignal_def option_seq_None for_range_None_iff
        check_positive_None)

lemma GetPositiveFrequencies_ok:
  assumes "ValidateComplexSignal cs = None"
    and "\<forall>i<max 1 (length (Values_c cs) div 2). \<not> flt (Frequencies_c cs ! i) (Finite 0)"
  shows "GetPositiveFrequencies cs
         = Inr \<lparr>Timestamp_c = Timestamp_c cs,
                Values_c = take (max 1 (length (Values_c cs) div 2)) (Values_c cs),
                Frequencies_c = take (max 1 (length (Values_c cs) div 2)) (Frequencies_c cs)\<rparr>"
proof -
  let ?n = "length (Values_c cs)"
  let ?h = "max 1 (?n div 2)"
  let ?r = "\<lparr>Timestamp_c = Timestamp_c cs, Values_c = take ?h (Values_c cs),
             Frequencies_c = take ?h (Frequencies_c cs)\<rparr>"
  have v: "Values_c cs \<noteq> []" "length (Values_c cs) = length (Frequencies_c cs)"
      "\<not> IsZero (Timestamp_c cs)"
      "\<forall>i<?n. \<exists>a b. Values_c cs ! i = Complex128 (Finite a) (Finite b)"
      "\<forall>i<length (Frequencies_c cs). \<exists>a. Frequencies_c cs ! i = Finite a"
    using assms(1) by (simp_all add: ValidateComplexSignal_None_iff)
  have n: "?n \<noteq> 0" using v(1) by simp
  then have "1 \<le> ?n" by (simp add: Suc_le_eq)
  then have h: "?h \<le> ?n" "0 < ?h" by auto
  have hN: "(if ?n div 2 = 0 then 1 else ?n div 2) = ?h" by auto
  have "ValidateComplexSignal ?r = None"
    unfolding ValidateComplexSignal_None_iff using v h by auto
  then have "ValidatePositiveFrequencySignal ?r = None"
    unfolding ValidatePositiveFrequencySignal_None_iff using assms(2) v(2) h by auto
  then show ?thesis
    using assms(1) n by (simp add: GetPositiveFrequencies_def Let_def hN)
qed

section \<open>Signs of the generated bins\<close>

lemma overflow_threshold_pos: "0 < overflow_threshold"
  using overflow_threshold_gt by (simp add: order.strict_trans2 [rotated])

lemma rnd_nonneg: "0 \<le> r \<Longrightarrow> \<not> flt (rnd r) (Finite 0)"
  using overflow_threshold_pos by (auto simp: rnd_def)

lemma not_flt_0_cases:
  "\<not> flt x (Finite 0) \<longleftrightarrow> x = NaN \<or> x = PosInf \<or> (\<exists>a\<ge>0. x = Finite a)"
  by (cases x) auto

lemma signed_inf_nonneg: "0 \<le> s \<Longrightarrow> \<not> flt (signed_inf s) (Finite 0)"
  by (simp add: signed_inf_def)

lemma fmul_nonneg:
  assumes "\<not> flt x (Finite 0)" and "\<not> flt y (Finite 0)"
  shows "\<not> flt (fmul x y) (Finite 0)"
  using assms unfolding not_flt_0_cases [of x] not_flt_0_cases [of y]
  by (auto simp: rnd_nonneg signed_inf_nonneg)

lemma fdiv_nonneg:
  assumes "\<not> flt x (Finite 0)" and "\<not> flt y (Finite 0)"
  shows "\<not> flt (fdiv x y) (Finite 0)"
  using assms unfolding not_flt_0_cases [of x] not_flt_0_cases [of y]
  by (auto simp: rnd_nonneg signed_inf_nonneg split: if_splits)

lemma float64_of_int_nonneg: "0 \<le> i \<Longrightarrow> \<not> flt (float64_of_int i) (Finite 0)"
  by (simp add: float64_of_int_def rnd_nonneg)

lemma not_fle_not_flt: "\<not> fle x y \<Longrightarrow> \<not> flt x y"
  by (simp add: fle_def)

lemma transform_first_half_nonneg:
  assumes "ProcessSignal sig = Inr cs" and "i < length (Values sig) div 2"
  shows "\<not> flt (Frequencies_c cs ! i) (Finite 0)"
proof -
  let ?n = "int (length (Values sig))"
  have sr: "\<not> flt (SampleRate sig) (Finite 0)"
    using ProcessSignal_Inr(1) [OF assms(1)] by (simp add: ValidateSignal_None_iff not_fle_not_flt)
  have i: "i < nat ?n" "int i < ?n div 2" using assms(2) by auto
  have "Frequencies_c cs ! i
        = fdiv (fmul (float64_of_int (int i)) (SampleRate sig)) (float64_of_int ?n)"
    using generateFrequencies_Inr(2) [OF ProcessSignal_Inr(3) [OF assms(1)] i(1)] i(2) by simp
  then show ?thesis
    by (simp add: fdiv_nonneg fmul_nonneg float64_of_int_nonneg sr)
qed

lemma ProcessSignal_lengths:
  assumes "ProcessSignal sig = Inr cs"
  shows "length (Values_c cs) = length (Values sig)"
    and "length (Frequencies_c cs) = length (Values sig)"
  using computeFFT_length [OF ProcessSignal_Inr(2) [OF assms]]
        generateFrequencies_Inr(1) [OF ProcessSignal_Inr(3) [OF assms]]
  by simp_all

lemma half_spectrum_cases:
  assumes "(ValidateComplexSignal cs = None \<and>
            (\<forall>i<max 1 (length (Values_c cs) div 2). \<not> flt (Frequencies_c cs ! i) (Finite 0))) \<or>
           (\<exists>sig. ProcessSignal sig = Inr cs \<and> 2 \<le> length (Values sig))"
  shows "GetPositiveFrequencies cs
         = Inr \<lparr>Timestamp_c = Timestamp_c cs,
                Values_c = take (max 1 (length (Values_c cs) div 2)) (Values_c cs),
                Frequencies_c = take (max 1 (length (Values_c cs) div 2)) (Frequencies_c cs)\<rparr>"
  using assms
proof
  assume "ValidateComplexSignal cs = None \<and>
            (\<forall>i<max 1 (length (Values_c cs) div 2). \<not> flt (Frequencies_c cs ! i) (Finite 0))"
  then show ?thesis by (intro GetPositiveFrequencies_ok) auto
next
  assume "\<exists>sig. ProcessSignal sig = Inr cs \<and> 2 \<le> length (Values sig)"
  then obtain sig where p: "ProcessSignal sig = Inr cs" and n: "2 \<le> length (Values sig)"
    by blast
  have l: "length (Values_c cs) = length (Values sig)" by (rule ProcessSignal_lengths [OF p])
  have "max 1 (length (Values sig) div 2) = length (Values sig) div 2" using n by auto
  then have "\<forall>i<max 1 (length (Values_c cs) div 2). \<not> flt (Frequencies_c cs ! i) (Finite 0)"
    using transform_first_half_nonneg [OF p] l by simp
  then show ?thesis
    using ProcessSignal_Inr(5) [OF p] by (intro GetPositiveFrequencies_ok) auto
qed

lemma GetPositiveFrequencies_centred:
  "GetPositiveFrequencies centred_spectrum
   = Inl (ProcessingError ''result validation''
            (ValidationError ''Frequencies'' ''negative frequency found at index 0''))"
  by (simp add: GetPositiveFrequencies_def centred_spectrum_def cone_def validate_eval Let_def
        fmt_d_digit)

lemma ValidateComplexSignal_centred: "ValidateComplexSignal centred_spectrum = None"
  by (simp add: centred_spectrum_def cone_def validate_eval)

lemma ValidateComplexSignal_test: "ValidateComplexSignal test_spectrum = None"
  by (simp add: test_spectrum_def validate_eval)

lemma ValidateComplexSignal_single: "ValidateComplexSignal single_value_spectrum = None"
  by (simp add: single_value_spectrum_def validate_eval)

text \<open>
  A signal of one sample: its only bin is labelled \<open>(0-1)*sampleRate/1\<close>, a negative
  frequency, so the spectrum that \<^verbatim>\<open>ProcessSignal\<close> returns for it is rejected by
  \<^verbatim>\<open>GetPositiveFrequencies\<close>.
\<close>

lemma ProcessSignal_single_sample:
  "ProcessSignal single_sample
   = Inr \<lparr>Timestamp_c = 1000000000, Values_c = [cone], Frequencies_c = [Finite (- 4)]\<rparr>"
  by (simp add: single_sample_def ProcessSignal_def computeFFT_1 generateFrequencies_def
        upto_rec1 float64_of_int_def validate_eval cone_def overflow_threshold_def)

lemma GetPositiveFrequencies_single_sample:
  "GetPositiveFrequencies \<lparr>Timestamp_c = 1000000000, Values_c = [cone],
                           Frequencies_c = [Finite (- 4)]\<rparr>
   = Inl (ProcessingError ''result validation''
            (ValidationError ''Frequencies'' ''negative frequency found at index 0''))"
  by (simp add: GetPositiveFrequencies_def cone_def validate_eval Let_def fmt_d_digit)

section \<open>The transform of an all-zero sequence\<close>

lemma fft_loop_zero:
  assumes "fft_loop n evenFFT oddFFT ks result = Inr r"
    and "\<forall>k\<in>set ks. k < length evenFFT \<and> k < length oddFFT"
    and "\<forall>z\<in>set evenFFT. z = czero" and "\<forall>z\<in>set oddFFT. z = czero"
    and "\<forall>z\<in>set result. z = czero"
  shows "\<forall>z\<in>set r. z = czero"
  using assms(1,2,5)
proof (induction ks arbitrary: result)
  case Nil
  then show ?case by simp
next
  case (Cons k ks)
  let ?angle = "fdiv (fmul (Finite (- 2 * pi)) (float64_of_int (int k))) (float64_of_int (int n))"
  have fin: "\<not> (math_IsNaN ?angle \<or> math_IsInf ?angle 0)"
    using Cons.prems(1) by (auto simp: Let_def split: if_splits)
  then obtain a where a: "?angle = Finite a"
    using not_finite_cases [of ?angle] by (auto simp: math_IsNaN_def math_IsInf_def)
  have e: "evenFFT ! k = czero" and o: "oddFFT ! k = czero"
    using Cons.prems(2) assms(3,4) by auto
  have t: "cmul (cmplx_Exp (Complex128 (Finite 0) ?angle)) (oddFFT ! k) = czero"
    by (simp only: a o cmplx_Exp_Finite cmul_czero_right)
  let ?result = "result[k := czero, k + n div 2 := czero]"
  have step: "fft_loop n evenFFT oddFFT ks ?result = Inr r"
    using Cons.prems(1) fin t e by (simp add: Let_def)
  have "\<forall>z\<in>set ?result. z = czero"
    using Cons.prems(3) by (metis insert_iff set_update_subset_insert subsetD)
  then show ?case
    using Cons.IH [OF step] Cons.prems(2) by simp
qed

lemma dft_sum_zero:
  assumes "dft_sum x n k js acc = Inr r"
    and "\<forall>j\<in>set js. j < length x" and "\<forall>z\<in>set x. z = czero" and "acc = czero"
  shows "r = czero"
  using assms(1,2,4)
proof (induction js arbitrary: acc)
  case Nil
  then show ?case by simp
next
  case (Cons j js)
  let ?angle = "fdiv (fmul (fmul (Finite (- 2 * pi)) (float64_of_int (int k)))
                       (float64_of_int (int j))) (float64_of_int (int n))"
  have fin: "\<not> (math_IsNaN ?angle \<or> math_IsInf ?angle 0)"
    using Cons.prems(1) by (auto simp: Let_def split: if_splits)
  then obtain a where a: "?angle = Finite a"
    using not_finite_cases [of ?angle] by (auto simp: math_IsNaN_def math_IsInf_def)
  have xj: "x ! j = czero" using Cons.prems(2) assms(3) by auto
  have t: "cmul (x ! j) (cmplx_Exp (Complex128 (Finite 0) ?angle)) = czero"
    by (simp only: a xj cmplx_Exp_Finite cmul_czero_left)
  have step: "dft_sum x n k js czero = Inr r"
    using Cons.prems(1,3) fin t by (simp add: Let_def)
  show ?case
    using Cons.IH [OF step] Cons.prems(2) by simp
qed

lemma dft_loop_zero:
  assumes "dft_loop x n ks result = Inr r"
    and "n \<le> length x" and "\<forall>z\<in>set x. z = czero" and "\<forall>z\<in>set result. z = czero"
  shows "\<forall>z\<in>set r. z = czero"
  using assms(1,4)
proof (induction ks arbitrary: result)
  case Nil
  then show ?case by simp
next
  case (Cons k ks)
  obtain s where s: "dft_sum x n k [0..<n] czero = Inr s"
    and step: "dft_loop x n ks (result[k := s]) = Inr r"
    using Cons.prems(1) by (auto split: sum.splits)
  have "s = czero"
    using dft_sum_zero [OF s] assms(2,3) by auto
  then have "\<forall>z\<in>set (result[k := s]). z = czero"
    using Cons.prems(2) by (metis insert_iff set_update_subset_insert subsetD)
  then show ?case
    using Cons.IH [OF step] by simp
qed

lemma dft_zero:
  assumes "dft x = Inr y" and "\<forall>z\<in>set x. z = czero"
  shows "\<forall>z\<in>set y. z = czero"
proof -
  have "dft_loop x (length x) [0..<length x] (replicate (length x) czero) = Inr y"
    using assms(1) by (auto simp: dft_def Let_def split: if_splits)
  then show ?thesis
    using dft_loop_zero [of x "length x" "[0..<length x]" "replicate (length x) czero" y] assms(2)
    by simp
qed

lemma computeFFT_zero:
  "computeFFT x = Inr y \<Longrightarrow> \<forall>z\<in>set x. z = czero \<Longrightarrow> \<forall>z\<in>set y. z = czero"
proof (induction x arbitrary: y rule: computeFFT.induct)
  case (1 x)
  let ?n = "length x"
  show ?case
  proof (cases "?n \<le> 1 \<or> ?n mod 2 \<noteq> 0")
    case True
    then show ?thesis
      using "1.prems" dft_zero [of x y]
      by (subst (asm) computeFFT.simps) (auto simp: Let_def split: if_splits)
  next
    case False
    then have n: "\<not> ?n \<le> 0" "\<not> ?n \<le> 1" "\<not> ?n mod 2 \<noteq> 0" by auto
    let ?e = "map (\<lambda>i. x ! (2 * i)) [0..<?n div 2]"
    let ?o = "map (\<lambda>i. x ! (2 * i + 1)) [0..<?n div 2]"
    obtain ye yo where ye: "computeFFT ?e = Inr ye" and yo: "computeFFT ?o = Inr yo"
      and loop: "fft_loop ?n ye yo [0..<?n div 2] (replicate ?n czero) = Inr y"
      using "1.prems"(1) n
      by (subst (asm) computeFFT.simps) (auto simp: Let_def split: sum.splits)
    have ze: "\<forall>z\<in>set ?e. z = czero" and zo: "\<forall>z\<in>set ?o. z = czero"
      using "1.prems"(2) n by auto
    have e0: "\<forall>z\<in>set ye. z = czero"
      using "1.IH"(1) [OF refl n refl refl ye ze] .
    have o0: "\<forall>z\<in>set yo. z = czero"
      using "1.IH"(2) [OF refl n refl refl _ yo zo] ye by auto
    have len: "length ye = ?n div 2" "length yo = ?n div 2"
      using computeFFT_length [OF ye] computeFFT_length [OF yo] by simp_all
    show ?thesis
      using fft_loop_zero [OF loop _ e0 o0] len by simp
  qed
qed

section \<open>The impedance loop\<close>

lemma impedance_loop_result:
  assumes "impedance_loop vs cs ks imp = Inr r"
  shows "length r = length imp \<and>
         (\<forall>k\<in>set ks. k < length imp \<longrightarrow>
            r ! k = (if flt (cmplx_Abs (cs ! k)) (Finite (1 / 10 ^ 10))
                     then Complex128 (Finite 0) (Finite 0)
                     else complex128div (vs ! k) (cs ! k))) \<and>
         (\<forall>k. k \<notin> set ks \<longrightarrow> r ! k = imp ! k)"
  using assms
proof (induction ks arbitrary: imp r)
  case Nil
  then show ?case by simp
next
  case (Cons i rest)
  let ?z = "if flt (cmplx_Abs (cs ! i)) (Finite (1 / 10 ^ 10))
            then Complex128 (Finite 0) (Finite 0) else complex128div (vs ! i) (cs ! i)"
  have step: "impedance_loop vs cs rest (imp[i := ?z]) = Inr r"
    using Cons.prems by (auto simp: Let_def split: if_splits)
  note ih = Cons.IH [OF step]
  have len: "length r = length imp" using ih by simp
  have rest: "\<forall>k\<in>set rest. k < length imp \<longrightarrow>
            r ! k = (if flt (cmplx_Abs (cs ! k)) (Finite (1 / 10 ^ 10))
                     then Complex128 (Finite 0) (Finite 0)
                     else complex128div (vs ! k) (cs ! k))"
    using ih by simp
  have other: "\<forall>k. k \<notin> set rest \<longrightarrow> r ! k = imp[i := ?z] ! k"
    using ih by simp
  have "i < length imp \<longrightarrow> r ! i = ?z"
  proof (cases "i \<in> set rest")
    case True
    then show ?thesis using rest by simp
  next
    case False
    then show ?thesis using other by simp
  qed
  moreover have "\<forall>k. k \<notin> set (i # rest) \<longrightarrow> r ! k = imp ! k"
    using other by auto
  ultimately show ?case
    using len rest by auto
qed

lemma GetPositiveFrequencies_Inr:
  assumes "GetPositiveFrequencies cs = Inr r"
  shows "Values_c r = take (max 1 (length (Values_c cs) div 2)) (Values_c cs)"
    and "Frequencies_c r = take (max 1 (length (Values_c cs) div 2)) (Frequencies_c cs)"
    and "Timestamp_c r = Timestamp_c cs"
    and "ValidateComplexSignal cs = None"
proof -
  have hN: "(if length (Values_c cs) div 2 = 0 then 1 else length (Values_c cs) div 2)
            = max 1 (length (Values_c cs) div 2)" by auto
  show "Values_c r = take (max 1 (length (Values_c cs) div 2)) (Values_c cs)"
    "Frequencies_c r = take (max 1 (length (Values_c cs) div 2)) (Frequencies_c cs)"
    "Timestamp_c r = Timestamp_c cs" "ValidateComplexSignal cs = None"
    using assms unfolding GetPositiveFrequencies_def Let_def hN
    by (auto split: option.splits if_splits)
qed

lemma CalculateImpedance_Inr:
  assumes "CalculateImpedance voltageSignal currentSignal = Inr r"
  shows "\<exists>voltageFull currentFull voltageFFT currentFFT.
           ValidateSignals voltageSignal currentSignal = None \<and>
           ProcessSignal voltageSignal = Inr voltageFull \<and>
           ProcessSignal currentSignal = Inr currentFull \<and>
           GetPositiveFrequencies voltageFull = Inr voltageFFT \<and>
           GetPositiveFrequencies currentFull = Inr currentFFT \<and>
           length (Values_c voltageFFT) = length (Values_c currentFFT) \<and>
           impedance_loop (Values_c voltageFFT) (Values_c currentFFT)
             [0..<length (Values_c voltageFFT)]
             (replicate (length (Values_c voltageFFT)) czero) = Inr (Impedance r) \<and>
           Frequencies_z r = Frequencies_c voltageFFT"
  using assms
  by (auto simp: CalculateImpedance_def CalculateMagnitudePhase_def Let_def
           split: option.splits sum.splits if_splits)

section \<open>The zero-current test\<close>

lemma ValidateSignals_zc: "ValidateSignals zc_voltage zc_current = None"
  by (simp add: zc_voltage_def zc_current_def validate_eval Sub_def minDuration_def maxDuration_def
        Seconds_def go_quot_def go_rem_def Second_def float64_of_int_def)

lemma ProcessSignal_zc_voltage:
  "ProcessSignal zc_voltage
   = Inr \<lparr>Timestamp_c = 1000000000,
          Values_c = [Complex128 (Finite 2) (Finite 0), Complex128 (Finite 0) (Finite 0),
                      Complex128 (Finite 2) (Finite 0), Complex128 (Finite 0) (Finite 0)],
          Frequencies_c = [Finite 0, Finite 1, Finite (- 2), Finite (- 1)]\<rparr>"
  by (simp add: zc_voltage_def ProcessSignal_def validate_eval
      computeFFT_4 generateFrequencies_4_4 carith)

lemma ProcessSignal_zc_current:
  "ProcessSignal zc_current
   = Inr \<lparr>Timestamp_c = 1000000000,
          Values_c = [Complex128 (Finite 0) (Finite 0), Complex128 (Finite 0) (Finite 0),
                      Complex128 (Finite 0) (Finite 0), Complex128 (Finite 0) (Finite 0)],
          Frequencies_c = [Finite 0, Finite 1, Finite (- 2), Finite (- 1)]\<rparr>"
  by (simp add: zc_current_def ProcessSignal_def validate_eval
      computeFFT_4 generateFrequencies_4_4 carith)

lemma CalculateImpedance_zc:
  "CalculateImpedance zc_voltage zc_current = Inr zc_impedance"
  apply (simp add: zc_impedance_def CalculateImpedance_def ValidateSignals_zc
        ProcessSignal_zc_voltage ProcessSignal_zc_current GetPositiveFrequencies_4)
  apply (simp add: cmplx_Abs_def complex128div_def validate_eval CalculateMagnitudePhase_def
        cmplx_Phase_def math_Atan2_def copysign_def overflow_threshold_def Let_def fsub_def
        czero_def zc_voltage_def)
  done

section \<open>Timestamp drift\<close>

lemma go_quot_abs: "\<bar>go_quot d Second\<bar> \<le> \<bar>d\<bar>"
proof -
  have "\<bar>go_quot d Second\<bar> = \<bar>d\<bar> div 1000000000"
    by (cases "d = 0") (simp_all add: go_quot_def Second_def abs_mult abs_sgn_eq)
  also have "\<dots> \<le> \<bar>d\<bar>" 
    by simp
  finally show ?thesis .
qed

lemma Seconds_Finite:
  assumes "\<bar>d\<bar> \<le> 2 ^ 63"
  shows "Seconds d = Finite (real_of_int d / 1000000000)"
proof -
  let ?q = "go_quot d Second" and ?r = "go_rem d Second"
  have q: "\<bar>?q\<bar> \<le> 2 ^ 63" using go_quot_abs [of d] assms by linarith
  have "\<bar>?r\<bar> \<le> \<bar>d\<bar> + 1000000000 * \<bar>?q\<bar>"
    unfolding go_rem_def Second_def by (simp add: abs_mult)
  also have "\<dots> \<le> 2 ^ 63 + 1000000000 * 2 ^ 63" using assms q by linarith
  finally have r: "\<bar>?r\<bar> \<le> 2 ^ 63 + 1000000000 * 2 ^ 63" .
  have fq: "float64_of_int ?q = Finite (real_of_int ?q)"
    using q by (rule float64_of_int_Finite)
  have "\<bar>real_of_int ?r\<bar> \<le> real_of_int (2 ^ 63 + 1000000000 * 2 ^ 63)"
    using r by (metis of_int_abs of_int_le_iff)
  also have "\<dots> \<le> 2 ^ 1000" by simp
  finally have rb: "\<bar>real_of_int ?r\<bar> \<le> 2 ^ 1000" .
  then have fr: "float64_of_int ?r = Finite (real_of_int ?r)"
    by (simp add: float64_of_int_def rnd_Finite)
  have dv: "rnd (real_of_int ?r / 1000000000) = Finite (real_of_int ?r / 1000000000)"
    using rb by (rule rnd_div_Finite) simp
  have eq: "real_of_int ?q + real_of_int ?r / 1000000000 = real_of_int d / 1000000000"
    by (simp add: go_rem_def Second_def field_simps)
  have "\<bar>real_of_int d\<bar> \<le> real_of_int (2 ^ 63)"
    using assms by (metis of_int_abs of_int_le_iff)
  also have "\<dots> \<le> 2 ^ 1000" by simp
  finally have "\<bar>real_of_int d\<bar> \<le> 2 ^ 1000" .
  then have "rnd (real_of_int d / 1000000000) = Finite (real_of_int d / 1000000000)"
    by (rule rnd_div_Finite) simp
  then show ?thesis
    by (simp add: Seconds_def Let_def fq fr dv eq)
qed

lemma Sub_abs: "\<bar>Sub t u\<bar> \<le> 2 ^ 63"
  by (auto simp: Sub_def Let_def minDuration_def maxDuration_def)

lemma Sub_drift: "100000000 < \<bar>Sub t u\<bar> \<longleftrightarrow> 100000000 < \<bar>t - u\<bar>"
  by (auto simp: Sub_def Let_def minDuration_def maxDuration_def)

lemma drift_iff:
  "fgt (math_Abs (Seconds (Sub t u))) (Finite (1 / 10)) \<longleftrightarrow> 100000000 < \<bar>t - u\<bar>"
proof -
  have "fgt (math_Abs (Seconds (Sub t u))) (Finite (1 / 10))
        \<longleftrightarrow> 1 / 10 < \<bar>real_of_int (Sub t u)\<bar> / 1000000000"
    by (simp add: Seconds_Finite [OF Sub_abs] fgt_def)
  also have "\<dots> \<longleftrightarrow> 100000000 < \<bar>real_of_int (Sub t u)\<bar>"
    by (simp add: field_simps)
  also have "\<dots> \<longleftrightarrow> 100000000 < \<bar>Sub t u\<bar>"
    by (metis of_int_abs of_int_less_iff of_int_numeral)
  finally show ?thesis by (simp add: Sub_drift)
qed

lemma ValidateSignalsMatch_eq:
  "ValidateSignalsMatch v c =
     (if length (Values v) \<noteq> length (Values c) then Some ErrMismatchedSignalLength
      else if fne (SampleRate v) (SampleRate c) then Some ErrMismatchedSampleRate
      else if 100000000 < \<bar>Timestamp v - Timestamp c\<bar> then
        Some (ValidationError ''Timestamp''
                ''voltage and current signals have significantly different timestamps'')
      else None)"
  by (simp add: ValidateSignalsMatch_def Let_def drift_iff NewValidationError_def)

section \<open>The first violation\<close>

lemma for_range_Some_iff:
  "for_range i chk xs = Some e \<longleftrightarrow>
     (\<exists>k<length xs. chk (i + k) (xs ! k) = Some e \<and> (\<forall>j<k. chk (i + j) (xs ! j) = None))"
proof (induction xs arbitrary: i)
  case Nil
  show ?case by simp
next
  case (Cons v vs)
  show ?case
  proof (cases "chk i v")
    case None
    have "(\<exists>k<length (v # vs). chk (i + k) ((v # vs) ! k) = Some e \<and>
              (\<forall>j<k. chk (i + j) ((v # vs) ! j) = None))
          \<longleftrightarrow> (\<exists>k<length vs. chk (Suc i + k) (vs ! k) = Some e \<and>
              (\<forall>j<k. chk (Suc i + j) (vs ! j) = None))"
      (is "?L \<longleftrightarrow> ?R")
    proof
      assume ?L
      then obtain k where k: "k < length (v # vs)" "chk (i + k) ((v # vs) ! k) = Some e"
        "\<forall>j<k. chk (i + j) ((v # vs) ! j) = None" by blast
      from k(2) None obtain k' where k': "k = Suc k'" by (cases k) auto
      have "\<forall>j<k'. chk (Suc i + j) (vs ! j) = None"
      proof (intro allI impI)
        fix j assume "j < k'"
        then have "Suc j < k" using k' by simp
        then have "chk (i + Suc j) ((v # vs) ! Suc j) = None" using k(3) by blast
        then show "chk (Suc i + j) (vs ! j) = None" by simp
      qed
      then show ?R using k(1,2) k' by auto
    next
      assume ?R
      then obtain k where k: "k < length vs" "chk (Suc i + k) (vs ! k) = Some e"
        "\<forall>j<k. chk (Suc i + j) (vs ! j) = None" by blast
      have "\<forall>j<Suc k. chk (i + j) ((v # vs) ! j) = None"
      proof (intro allI impI)
        fix j assume j: "j < Suc k"
        show "chk (i + j) ((v # vs) ! j) = None"
        proof (cases j)
          case 0
          then show ?thesis using None by simp
        next
          case (Suc j')
          then show ?thesis using k(3) j by simp
        qed
      qed
      moreover have "Suc k < length (v # vs)" "chk (i + Suc k) ((v # vs) ! Suc k) = Some e"
        using k(1,2) by simp_all
      ultimately show ?L by blast
    qed
    then show ?thesis using None Cons.IH [of "Suc i"] by simp
  next
    case (Some e')
    have "(\<exists>k<length (v # vs). chk (i + k) ((v # vs) ! k) = Some e \<and>
              (\<forall>j<k. chk (i + j) ((v # vs) ! j) = None)) \<longleftrightarrow> e' = e"
      (is "?L \<longleftrightarrow> _")
    proof
      assume ?L
      then obtain k where k: "chk (i + k) ((v # vs) ! k) = Some e"
        "\<forall>j<k. chk (i + j) ((v # vs) ! j) = None" by blast
      have "k = 0"
      proof (rule ccontr)
        assume "k \<noteq> 0"
        then have "chk (i + 0) ((v # vs) ! 0) = None" using k(2) by blast
        then show False using Some by simp
      qed
      then show "e' = e" using k(1) Some by simp
    next
      assume "e' = e"
      then have "chk (i + 0) ((v # vs) ! 0) = Some e" using Some by simp
      then show ?L by (intro exI [of _ 0]) simp
    qed
    then show ?thesis using Some by simp
  qed
qed

section \<open>Bounds on the spectrum\<close>

lemma bounded_cE:
  assumes "bounded_c M z"
  obtains a b where "z = Complex128 (Finite a) (Finite b)" "\<bar>a\<bar> \<le> M" "\<bar>b\<bar> \<le> M"
proof (cases z)
  case (Complex128 re im)
  with assms show ?thesis
    by (cases re; cases im) (auto intro: that)
qed

lemma bounded_c_mono: "bounded_c M z \<Longrightarrow> M \<le> M' \<Longrightarrow> bounded_c M' z"
  by (erule bounded_cE) auto

lemma bounded_c_czero: "0 \<le> M \<Longrightarrow> bounded_c M czero"
  by (simp add: czero_def)

lemma bounded_c_finite:
  "bounded_c M z \<Longrightarrow> \<exists>a b. z = Complex128 (Finite a) (Finite b)"
  by (erule bounded_cE) auto

lemma two_products:
  fixes a b c s :: real
  assumes "\<bar>a\<bar> \<le> M" "\<bar>b\<bar> \<le> M" "\<bar>c\<bar> \<le> 1" "\<bar>s\<bar> \<le> 1"
  shows "\<bar>c * a\<bar> \<le> M" "\<bar>s * b\<bar> \<le> M" "\<bar>c * b\<bar> \<le> M" "\<bar>s * a\<bar> \<le> M"
    "\<bar>c * a - s * b\<bar> \<le> 2 * M" "\<bar>c * b + s * a\<bar> \<le> 2 * M"
proof -
  have M: "0 \<le> M" using assms(1) by linarith
  show ca: "\<bar>c * a\<bar> \<le> M"
    using mult_mono [of "\<bar>c\<bar>" 1 "\<bar>a\<bar>" M] assms M by (simp add: abs_mult)
  show sb: "\<bar>s * b\<bar> \<le> M"
    using mult_mono [of "\<bar>s\<bar>" 1 "\<bar>b\<bar>" M] assms M by (simp add: abs_mult)
  show cb: "\<bar>c * b\<bar> \<le> M"
    using mult_mono [of "\<bar>c\<bar>" 1 "\<bar>b\<bar>" M] assms M by (simp add: abs_mult)
  show sa: "\<bar>s * a\<bar> \<le> M"
    using mult_mono [of "\<bar>s\<bar>" 1 "\<bar>a\<bar>" M] assms M by (simp add: abs_mult)
  show "\<bar>c * a - s * b\<bar> \<le> 2 * M" using ca sb by linarith
  show "\<bar>c * b + s * a\<bar> \<le> 2 * M" using cb sa by linarith
qed

lemma bounded_cmul_left:
  assumes "bounded_c M z" and "\<bar>c\<bar> \<le> 1" "\<bar>s\<bar> \<le> 1" and "2 * M \<le> L" and L: "L \<le> 2 ^ 1000"
  shows "bounded_c (2 * M) (cmul (Complex128 (Finite c) (Finite s)) z)"
proof -
  obtain a b where z: "z = Complex128 (Finite a) (Finite b)" and ab: "\<bar>a\<bar> \<le> M" "\<bar>b\<bar> \<le> M"
    using assms(1) by (rule bounded_cE)
  note p = two_products [OF ab assms(2,3)]
  have M: "M \<le> L" using ab(1) assms(4) by linarith
  have r: "rnd (c * a) = Finite (c * a)" "rnd (s * b) = Finite (s * b)"
    "rnd (c * b) = Finite (c * b)" "rnd (s * a) = Finite (s * a)"
    using p(1-4) M L by (auto intro!: rnd_Finite)
  have r2: "rnd (c * a - s * b) = Finite (c * a - s * b)"
    "rnd (c * b + s * a) = Finite (c * b + s * a)"
    using p(5,6) assms(4) L by (auto intro!: rnd_Finite)
  show ?thesis
    using p(5,6) by (simp add: z cmul_def fsub_def r r2)
qed

lemma bounded_cmul_right:
  assumes "bounded_c M z" and "\<bar>c\<bar> \<le> 1" "\<bar>s\<bar> \<le> 1" and "2 * M \<le> L" and L: "L \<le> 2 ^ 1000"
  shows "bounded_c (2 * M) (cmul z (Complex128 (Finite c) (Finite s)))"
proof -
  obtain a b where z: "z = Complex128 (Finite a) (Finite b)" and ab: "\<bar>a\<bar> \<le> M" "\<bar>b\<bar> \<le> M"
    using assms(1) by (rule bounded_cE)
  note p = two_products [OF ab assms(2,3)]
  have M: "M \<le> L" using ab(1) assms(4) by linarith
  have r: "rnd (a * c) = Finite (a * c)" "rnd (b * s) = Finite (b * s)"
    "rnd (b * c) = Finite (b * c)" "rnd (a * s) = Finite (a * s)"
    using p(1-4) M L by (auto intro!: rnd_Finite simp: mult.commute)
  have r2: "rnd (a * c - b * s) = Finite (a * c - b * s)"
    "rnd (a * s + b * c) = Finite (a * s + b * c)"
    using p(5,6) assms(4) L by (auto intro!: rnd_Finite simp: mult.commute add.commute)
  show ?thesis
    using p(5,6) by (simp add: z cmul_def fsub_def r r2 mult.commute add.commute)
qed

lemma bounded_cadd:
  assumes "bounded_c M z" and "bounded_c M' w" and "M + M' \<le> L" and L: "L \<le> 2 ^ 1000"
  shows "bounded_c (M + M') (cadd z w)" and "bounded_c (M + M') (csub z w)"
proof -
  obtain a b where z: "z = Complex128 (Finite a) (Finite b)" and ab: "\<bar>a\<bar> \<le> M" "\<bar>b\<bar> \<le> M"
    using assms(1) by (rule bounded_cE)
  obtain c d where w: "w = Complex128 (Finite c) (Finite d)" and cd: "\<bar>c\<bar> \<le> M'" "\<bar>d\<bar> \<le> M'"
    using assms(2) by (rule bounded_cE)
  have s: "\<bar>a + c\<bar> \<le> M + M'" "\<bar>b + d\<bar> \<le> M + M'" "\<bar>a - c\<bar> \<le> M + M'" "\<bar>b - d\<bar> \<le> M + M'"
    using ab cd by linarith+
  then have r: "rnd (a + c) = Finite (a + c)" "rnd (b + d) = Finite (b + d)"
    "rnd (a - c) = Finite (a - c)" "rnd (b - d) = Finite (b - d)"
    using assms(3) L by (auto intro!: rnd_Finite)
  show "bounded_c (M + M') (cadd z w)"
    using s by (simp add: z w cadd_def r)
  show "bounded_c (M + M') (csub z w)"
    using s by (simp add: z w csub_def fsub_def r)
qed

lemma bounded_c_nonneg: "bounded_c M z \<Longrightarrow> 0 \<le> M"
  by (erule bounded_cE) linarith

lemma bounded_twiddle_left:
  assumes "bounded_c M z" and "2 * M \<le> L" and "L \<le> 2 ^ 1000"
  shows "bounded_c (2 * M) (cmul (cmplx_Exp (Complex128 (Finite 0) (Finite a))) z)"
  unfolding cmplx_Exp_Finite
  using assms(1) abs_cos_le_one [of a] abs_sin_le_one [of a] assms(2,3)
  by (rule bounded_cmul_left)

lemma bounded_twiddle_right:
  assumes "bounded_c M z" and "2 * M \<le> L" and "L \<le> 2 ^ 1000"
  shows "bounded_c (2 * M) (cmul z (cmplx_Exp (Complex128 (Finite 0) (Finite a))))"
  unfolding cmplx_Exp_Finite
  using assms(1) abs_cos_le_one [of a] abs_sin_le_one [of a] assms(2,3)
  by (rule bounded_cmul_right)

lemma set_update2_bounded:
  assumes "\<forall>z\<in>set xs. P z" and "P u" and "P v"
  shows "\<forall>z\<in>set (xs[i := u, j := v]). P z"
proof
  fix z assume "z \<in> set (xs[i := u, j := v])"
  then have "z = v \<or> z \<in> set (xs[i := u])"
    using set_update_subset_insert [of "xs[i := u]" j v] by auto
  then have "z = v \<or> z = u \<or> z \<in> set xs"
    using set_update_subset_insert [of xs i u] by auto
  then show "P z" using assms by auto
qed

lemma fft_loop_bounded:
  assumes "fft_loop n evenFFT oddFFT ks result = Inr r"
    and "\<forall>k\<in>set ks. k < length evenFFT \<and> k < length oddFFT"
    and "\<forall>z\<in>set evenFFT. bounded_c B z" and "\<forall>z\<in>set oddFFT. bounded_c B z"
    and "\<forall>z\<in>set result. bounded_c (3 * B) z"
    and "0 \<le> B" and "3 * B \<le> L" and L: "L \<le> 2 ^ 1000"
  shows "\<forall>z\<in>set r. bounded_c (3 * B) z"
  using assms(1,2,5)
proof (induction ks arbitrary: result)
  case Nil
  then show ?case by simp
next
  case (Cons k ks)
  let ?angle = "fdiv (fmul (Finite (- 2 * pi)) (float64_of_int (int k))) (float64_of_int (int n))"
  have fin: "\<not> (math_IsNaN ?angle \<or> math_IsInf ?angle 0)"
    using Cons.prems(1) by (auto simp: Let_def split: if_splits)
  then obtain a where a: "?angle = Finite a"
    using not_finite_cases [of ?angle] by (auto simp: math_IsNaN_def math_IsInf_def)
  have e: "bounded_c B (evenFFT ! k)" and o: "bounded_c B (oddFFT ! k)"
    using Cons.prems(2) assms(3,4) by auto
  let ?t = "cmul (cmplx_Exp (Complex128 (Finite 0) ?angle)) (oddFFT ! k)"
  have B2: "2 * B \<le> L" using assms(6,7) by linarith
  have t: "bounded_c (2 * B) ?t"
    unfolding a using o B2 L by (rule bounded_twiddle_left)
  have "B + 2 * B \<le> L" using assms(7) by simp
  from bounded_cadd [OF e t this L]
  have u: "bounded_c (3 * B) (cadd (evenFFT ! k) ?t)" and v: "bounded_c (3 * B) (csub (evenFFT ! k) ?t)"
    by simp_all
  let ?result = "result[k := cadd (evenFFT ! k) ?t, k + n div 2 := csub (evenFFT ! k) ?t]"
  have step: "fft_loop n evenFFT oddFFT ks ?result = Inr r"
    using Cons.prems(1) fin by (simp add: Let_def)
  have "\<forall>z\<in>set ?result. bounded_c (3 * B) z"
    using Cons.prems(3) u v by (rule set_update2_bounded)
  then show ?case
    using Cons.IH [OF step] Cons.prems(2) by simp
qed

lemma dft_sum_bounded:
  assumes "dft_sum x n k js acc = Inr r"
    and "\<forall>j\<in>set js. j < length x" and "\<forall>z\<in>set x. bounded_c M z" and "0 \<le> M"
    and "bounded_c A acc" and "A + 2 * M * real (length js) \<le> L" and L: "L \<le> 2 ^ 1000"
  shows "bounded_c (A + 2 * M * real (length js)) r"
  using assms(1,2,5,6)
proof (induction js arbitrary: acc A)
  case Nil
  then show ?case by simp
next
  case (Cons j js)
  let ?angle = "fdiv (fmul (fmul (Finite (- 2 * pi)) (float64_of_int (int k)))
                       (float64_of_int (int j))) (float64_of_int (int n))"
  have fin: "\<not> (math_IsNaN ?angle \<or> math_IsInf ?angle 0)"
    using Cons.prems(1) by (auto simp: Let_def split: if_splits)
  then obtain a where a: "?angle = Finite a"
    using not_finite_cases [of ?angle] by (auto simp: math_IsNaN_def math_IsInf_def)
  have xj: "bounded_c M (x ! j)" using Cons.prems(2) assms(3) by auto
  have A: "0 \<le> A" using Cons.prems(3) by (rule bounded_c_nonneg)
  have len: "0 \<le> 2 * M * real (length js)" using assms(4) by simp
  have lim: "A + 2 * M + 2 * M * real (length js) \<le> L"
    using Cons.prems(4) by (simp add: algebra_simps)
  have M2: "2 * M \<le> L" using lim A len by linarith
  let ?t = "cmul (x ! j) (cmplx_Exp (Complex128 (Finite 0) ?angle))"
  have t: "bounded_c (2 * M) ?t"
    unfolding a using xj M2 L by (rule bounded_twiddle_right)
  have "A + 2 * M \<le> L" using lim len by linarith
  from bounded_cadd(1) [OF Cons.prems(3) t this L]
  have acc': "bounded_c (A + 2 * M) (cadd acc ?t)" .
  have step: "dft_sum x n k js (cadd acc ?t) = Inr r"
    using Cons.prems(1) fin by (simp add: Let_def)
  have "bounded_c (A + 2 * M + 2 * M * real (length js)) r"
    using Cons.IH [OF step _ acc' lim] Cons.prems(2) by simp
  then show ?case by (simp add: algebra_simps)
qed

lemma dft_loop_bounded:
  assumes "dft_loop x n ks result = Inr r"
    and "n \<le> length x" and "\<forall>z\<in>set x. bounded_c M z" and "0 \<le> M"
    and "2 * M * real n \<le> L" and L: "L \<le> 2 ^ 1000"
    and "\<forall>z\<in>set result. bounded_c (2 * M * real n) z"
  shows "\<forall>z\<in>set r. bounded_c (2 * M * real n) z"
  using assms(1,7)
proof (induction ks arbitrary: result)
  case Nil
  then show ?case by simp
next
  case (Cons k ks)
  obtain s where s: "dft_sum x n k [0..<n] czero = Inr s"
    and step: "dft_loop x n ks (result[k := s]) = Inr r"
    using Cons.prems(1) by (auto split: sum.splits)
  have j: "\<forall>j\<in>set [0..<n]. j < length x" using assms(2) by simp
  have z: "bounded_c 0 czero" by (simp add: bounded_c_czero)
  have l: "0 + 2 * M * real (length [0..<n]) \<le> L" using assms(5) by simp
  have "bounded_c (0 + 2 * M * real (length [0..<n])) s"
    using s j assms(3,4) z l L by (rule dft_sum_bounded)
  then have "bounded_c (2 * M * real n) s" by simp
  then have "\<forall>z\<in>set (result[k := s]). bounded_c (2 * M * real n) z"
    using Cons.prems(2) by (metis insert_iff set_update_subset_insert subsetD)
  then show ?case
    using Cons.IH [OF step] by simp
qed

lemma dft_bounded:
  assumes "dft x = Inr y" and "\<forall>z\<in>set x. bounded_c M z" and "0 \<le> M"
    and "2 * M * real (length x) \<le> L" and L: "L \<le> 2 ^ 1000"
  shows "\<forall>z\<in>set y. bounded_c (2 * M * real (length x)) z"
proof -
  have loop: "dft_loop x (length x) [0..<length x] (replicate (length x) czero) = Inr y"
    using assms(1) by (auto simp: dft_def Let_def split: if_splits)
  have "0 \<le> 2 * M * real (length x)" using assms(3) by simp
  then have init: "\<forall>z\<in>set (replicate (length x) czero). bounded_c (2 * M * real (length x)) z"
    by (simp add: bounded_c_czero)
  have le: "length x \<le> length x" by simp
  show ?thesis
    using loop le assms(2,3,4) L init by (rule dft_loop_bounded)
qed

lemma computeFFT_small:
  "length x \<le> 1 \<Longrightarrow>
   computeFFT x = (if length x \<le> 0 then Inl ErrInvalidSignalLength else Inr x)"
  by (subst computeFFT.simps) (simp add: Let_def)

lemma computeFFT_odd:
  "\<not> length x \<le> 1 \<Longrightarrow> length x mod 2 \<noteq> 0 \<Longrightarrow> computeFFT x = dft x"
  by (subst computeFFT.simps) (auto simp: Let_def)

lemma computeFFT_even:
  assumes "\<not> length x \<le> 1" and "\<not> length x mod 2 \<noteq> 0"
  shows "computeFFT x =
     (case computeFFT (map (\<lambda>i. x ! (2 * i)) [0..<length x div 2]) of
        Inl err \<Rightarrow> Inl err
      | Inr evenFFT \<Rightarrow>
          (case computeFFT (map (\<lambda>i. x ! (2 * i + 1)) [0..<length x div 2]) of
             Inl err \<Rightarrow> Inl err
           | Inr oddFFT \<Rightarrow>
               fft_loop (length x) evenFFT oddFFT [0..<length x div 2]
                 (replicate (length x) czero)))"
proof -
  have "\<not> length x \<le> 0" using assms(1) by auto
  then show ?thesis
    using assms by (subst computeFFT.simps) (simp only: Let_def if_False)
qed

lemma computeFFT_bounded:
  "computeFFT x = Inr y \<Longrightarrow> \<forall>z\<in>set x. bounded_c M z \<Longrightarrow> 0 \<le> M \<Longrightarrow>
   2 * (real (length x))\<^sup>2 * M \<le> L \<Longrightarrow> L \<le> 2 ^ 1000 \<Longrightarrow>
   \<forall>z\<in>set y. bounded_c (2 * (real (length x))\<^sup>2 * M) z"
proof (induction x arbitrary: y rule: computeFFT.induct)
  case (1 x)
  let ?n = "length x"
  note run = "1.prems"(1) and bx = "1.prems"(2) and M = "1.prems"(3)
    and lim = "1.prems"(4) and L = "1.prems"(5)
  consider (one) "?n \<le> 1" | (odd) "\<not> ?n \<le> 1" "?n mod 2 \<noteq> 0"
    | (even) "\<not> ?n \<le> 1" "\<not> ?n mod 2 \<noteq> 0" by blast
  then show ?case
  proof cases
    case one
    have "(if ?n \<le> 0 then Inl ErrInvalidSignalLength else Inr x) = Inr y"
      using run computeFFT_small [OF one] by simp
    then have y: "y = x" and "\<not> ?n \<le> 0" by (auto split: if_splits)
    then have n: "?n = 1" using one by (cases x) auto
    have "M \<le> 2 * (real ?n)\<^sup>2 * M" using M by (simp add: n)
    then show ?thesis
      using bx y bounded_c_mono by blast
  next
    case odd
    have d: "dft x = Inr y"
      using run computeFFT_odd [OF odd] by simp
    have n1: "1 \<le> real ?n" using odd(1) by simp
    then have "real ?n * 1 \<le> real ?n * real ?n" by (intro mult_left_mono) simp_all
    then have "real ?n \<le> (real ?n)\<^sup>2" by (simp add: power2_eq_square)
    then have "M * real ?n \<le> M * (real ?n)\<^sup>2" using M by (rule mult_left_mono)
    then have le: "2 * M * real ?n \<le> 2 * (real ?n)\<^sup>2 * M" by (simp add: mult.commute)
    then have "2 * M * real ?n \<le> L" using lim by linarith
    from dft_bounded [OF d bx M this L]
    have "\<forall>z\<in>set y. bounded_c (2 * M * real ?n) z" .
    then show ?thesis
      using le bounded_c_mono by blast
  next
    case even
    have n0: "\<not> ?n \<le> 0" using even(1) by auto
    let ?h = "?n div 2"
    let ?e = "map (\<lambda>i. x ! (2 * i)) [0..<?h]"
    let ?o = "map (\<lambda>i. x ! (2 * i + 1)) [0..<?h]"
    obtain ye yo where ye: "computeFFT ?e = Inr ye" and yo: "computeFFT ?o = Inr yo"
      and loop: "fft_loop ?n ye yo [0..<?h] (replicate ?n czero) = Inr y"
      using run unfolding computeFFT_even [OF even] by (auto split: sum.splits)
    have "?n = 2 * ?h" using even(2) by presburger
    then have "real ?n = real (2 * ?h)" by simp
    then have nh: "real ?n = 2 * real ?h" by simp
    let ?B = "2 * (real ?h)\<^sup>2 * M"
    have B0: "0 \<le> ?B" using M by simp
    have n2: "2 * (real ?n)\<^sup>2 * M = 4 * ?B" unfolding nh by (simp add: power2_eq_square)
    have B3: "3 * ?B \<le> 2 * (real ?n)\<^sup>2 * M" unfolding n2 using B0 by linarith
    have B3L: "3 * ?B \<le> L" using B3 lim by linarith
    have BL: "?B \<le> L" using B3L B0 by linarith
    have "\<forall>i<?h. 2 * i < ?n \<and> 2 * i + 1 < ?n" using \<open>?n = 2 * ?h\<close> by auto
    then have be: "\<forall>z\<in>set ?e. bounded_c M z" and bo: "\<forall>z\<in>set ?o. bounded_c M z"
      using bx by auto
    have le: "length ?e = ?h" "length ?o = ?h" by simp_all
    have BLe: "2 * (real (length ?e))\<^sup>2 * M \<le> L" "2 * (real (length ?o))\<^sup>2 * M \<le> L"
      unfolding le using BL by simp_all
    have e: "\<forall>z\<in>set ye. bounded_c (2 * (real (length ?e))\<^sup>2 * M) z"
      using refl n0 even refl refl ye be M BLe(1) L by (rule "1.IH"(1))
    have o: "\<forall>z\<in>set yo. bounded_c (2 * (real (length ?o))\<^sup>2 * M) z"
      using refl n0 even refl refl ye yo bo M BLe(2) L by (rule "1.IH"(2))
    have e': "\<forall>z\<in>set ye. bounded_c ?B z" using e unfolding le .
    have o': "\<forall>z\<in>set yo. bounded_c ?B z" using o unfolding le .
    have len: "length ye = ?h" "length yo = ?h"
      using computeFFT_length [OF ye] computeFFT_length [OF yo] by simp_all
    have ks: "\<forall>k\<in>set [0..<?h]. k < length ye \<and> k < length yo" using len by simp
    have "0 \<le> 3 * ?B" using B0 by simp
    then have init: "\<forall>z\<in>set (replicate ?n czero). bounded_c (3 * ?B) z"
      by (simp add: bounded_c_czero)
    have "\<forall>z\<in>set y. bounded_c (3 * ?B) z"
      using loop ks e' o' init B0 B3L L by (rule fft_loop_bounded)
    then show ?thesis
      using B3 bounded_c_mono by blast
  qed
qed

section \<open>A transform that succeeds\<close>

lemma real_nat_bound: "n < 2 ^ 63 \<Longrightarrow> real n \<le> 2 ^ 63"
proof -
  assume "n < 2 ^ 63"
  then have "real n < real (2 ^ 63)" by (simp only: of_nat_less_iff)
  then show ?thesis by simp
qed

lemma bin_Finite:
  assumes "\<bar>m\<bar> \<le> 2 ^ 63" and "1 \<le> n" "n \<le> 2 ^ 63" and "\<bar>r\<bar> \<le> 2 ^ 900"
  shows "\<exists>a. fdiv (fmul (float64_of_int m) (Finite r)) (float64_of_int n) = Finite a"
proof -
  have m: "float64_of_int m = Finite (of_int m)"
    using assms(1) by (rule float64_of_int_Finite)
  have "\<bar>n\<bar> \<le> 2 ^ 63" using assms(2,3) by simp
  then have n: "float64_of_int n = Finite (of_int n)"
    by (rule float64_of_int_Finite)
  have "\<bar>real_of_int m\<bar> \<le> real_of_int (2 ^ 63)"
    using assms(1) by (metis of_int_abs of_int_le_iff)
  then have mb: "\<bar>real_of_int m\<bar> \<le> 2 ^ 63" by simp
  have "\<bar>real_of_int m * r\<bar> = \<bar>real_of_int m\<bar> * \<bar>r\<bar>" by (rule abs_mult)
  also have "\<dots> \<le> 2 ^ 63 * 2 ^ 900"
    using mb assms(4) by (intro mult_mono) simp_all
  also have "\<dots> \<le> (2::real) ^ 1000" by simp
  finally have p: "\<bar>real_of_int m * r\<bar> \<le> 2 ^ 1000" .
  then have mul: "rnd (real_of_int m * r) = Finite (real_of_int m * r)"
    by (rule rnd_Finite)
  have n1: "1 \<le> real_of_int n" using assms(2) by simp
  have dv: "rnd (real_of_int m * r / real_of_int n) = Finite (real_of_int m * r / real_of_int n)"
    using p n1 by (rule rnd_div_Finite)
  have "real_of_int n \<noteq> 0" using n1 by simp
  then show ?thesis
    by (simp add: m n mul dv)
qed

lemma generateFrequencies_Finite:
  assumes "generateFrequencies (int n) (Finite r) = Inr fs" and "n < 2 ^ 63"
    and "\<bar>r\<bar> \<le> 2 ^ 900" and "i < n"
  shows "\<exists>a. fs ! i = Finite a"
proof -
  have n: "1 \<le> int n" "int n \<le> 2 ^ 63"
    using assms(2,4) int_bound [of n] by simp_all
  have i: "\<bar>int i\<bar> \<le> 2 ^ 63" "\<bar>int i - int n\<bar> \<le> 2 ^ 63"
    using assms(4) n(2) by simp_all
  have "i < nat (int n)" using assms(4) by simp
  note eq = generateFrequencies_Inr(2) [OF assms(1) this]
  show ?thesis
  proof (cases "int i < int n div 2")
    case True
    then show ?thesis
      using eq bin_Finite [OF i(1) n assms(3)] by simp
  next
    case False
    then show ?thesis
      using eq bin_Finite [OF i(2) n assms(3)] by simp
  qed
qed

lemma ProcessSignal_ok:
  assumes "ValidateSignal x = None" and "length (Values x) < 2 ^ 63"
    and "\<forall>v\<in>set (Values x). \<exists>a. v = Finite a \<and> \<bar>a\<bar> \<le> 2 ^ 800"
    and "\<exists>r. SampleRate x = Finite r \<and> r \<le> 2 ^ 900"
  shows "\<exists>cs. ProcessSignal x = Inr cs \<and> length (Values_c cs) = length (Values x) \<and>
              length (Frequencies_c cs) = length (Values x)"
proof -
  let ?cv = "map (\<lambda>val. Complex128 val (Finite 0)) (Values x)"
  let ?n = "length (Values x)"
  have ne: "Values x \<noteq> []" and sr: "\<not> fle (SampleRate x) (Finite 0)"
    and ts: "\<not> IsZero (Timestamp x)"
    using assms(1) by (simp_all add: ValidateSignal_None_iff)
  obtain r where r: "SampleRate x = Finite r" and r9: "r \<le> 2 ^ 900"
    using assms(4) by blast
  have "0 \<le> r" using sr r by (simp add: fle_def feq_def)
  then have rb: "\<bar>r\<bar> \<le> 2 ^ 900" using r9 by simp
  obtain y where y: "computeFFT ?cv = Inr y"
    using computeFFT_ok [of ?cv] ne assms(2) by auto
  have ly: "length y = ?n" using computeFFT_length [OF y] by simp
  have "1 \<le> int ?n" using ne by (cases "Values x") auto
  then obtain fs where fs: "generateFrequencies (int ?n) (SampleRate x) = Inr fs"
    using generateFrequencies_ok sr by blast
  have lfs: "length fs = ?n" using generateFrequencies_Inr(1) [OF fs] by simp
  have bcv: "\<forall>z\<in>set ?cv. bounded_c (2 ^ 800) z"
    using assms(3) by auto
  have "(real ?n)\<^sup>2 \<le> (2 ^ 63)\<^sup>2"
    using real_nat_bound [OF assms(2)] by (intro power_mono) simp_all
  then have "2 * (real ?n)\<^sup>2 * 2 ^ 800 \<le> 2 * (2 ^ 63)\<^sup>2 * (2::real) ^ 800"
    by (intro mult_mono) simp_all
  also have "\<dots> \<le> (2::real) ^ 1000" by simp
  finally have lim: "2 * (real (length ?cv))\<^sup>2 * 2 ^ 800 \<le> (2::real) ^ 1000" by simp
  have M: "(0::real) \<le> 2 ^ 800" by simp
  have L: "(2::real) ^ 1000 \<le> 2 ^ 1000" by simp
  have "\<forall>z\<in>set y. bounded_c (2 * (real (length ?cv))\<^sup>2 * 2 ^ 800) z"
    using y bcv M lim L by (rule computeFFT_bounded)
  then have vy: "\<forall>i<length y. \<exists>a b. y ! i = Complex128 (Finite a) (Finite b)"
    using bounded_c_finite by (metis nth_mem)
  have vf: "\<forall>i<length fs. \<exists>a. fs ! i = Finite a"
    using generateFrequencies_Finite [OF fs [unfolded r] assms(2) rb] lfs by simp
  let ?r = "\<lparr>Timestamp_c = Timestamp x, Values_c = y, Frequencies_c = fs\<rparr>"
  have "y \<noteq> []" using ne ly by auto
  then have "ValidateComplexSignal ?r = None"
    using ly lfs ts vy vf by (simp add: ValidateComplexSignal_None_iff)
  then have "ProcessSignal x = Inr ?r"
    using assms(1) ne y fs by (simp add: ProcessSignal_def Let_def)
  then show ?thesis
    using ly lfs by simp
qed

lemma not_fle_0_iff: "\<not> fle x (Finite 0) \<longleftrightarrow> fgt x (Finite 0) \<or> x = NaN"
  by (cases x) (auto simp: fle_def feq_def fgt_def)

lemma ValidateSignal_None_iff_gt:
  "ValidateSignal s = None \<longleftrightarrow>
     Values s \<noteq> [] \<and> (fgt (SampleRate s) (Finite 0) \<or> SampleRate s = NaN) \<and>
     \<not> IsZero (Timestamp s) \<and> (\<forall>v\<in>set (Values s). \<exists>a. v = Finite a)"
  by (simp add: ValidateSignal_None_iff not_fle_0_iff)

lemma ValidateSignal_first_violation:
  assumes "Values s \<noteq> []" and "\<not> fle (SampleRate s) (Finite 0)" and "\<not> IsZero (Timestamp s)"
    and "k < length (Values s)" and "\<forall>j<k. \<exists>a. Values s ! j = Finite a"
    and "\<forall>a. Values s ! k \<noteq> Finite a"
  shows "ValidateSignal s = check_value k (Values s ! k)"
    and "ValidateSignal s \<noteq> None"
proof -
  obtain e where e: "check_value k (Values s ! k) = Some e"
    using assms(6) check_value_None [of k "Values s ! k"] by (cases "check_value k (Values s ! k)") auto
  have "\<forall>j<k. check_value (0 + j) (Values s ! j) = None"
    using assms(5) by (simp add: check_value_None)
  then have "for_range 0 check_value (Values s) = Some e"
    unfolding for_range_Some_iff using assms(4) e by auto
  then show "ValidateSignal s = check_value k (Values s ! k)" "ValidateSignal s \<noteq> None"
    using assms(1,2,3) e by (simp_all add: ValidateSignal_def)
qed

section \<open>The division loop as one expression\<close>

text \<open>
  The loop stops at the first index whose quotient is taken and is NaN or infinite;
  when there is none it has written every bin.
\<close>

lemma impedance_loop_find:
  "impedance_loop vs cs ks imp =
     (case find (\<lambda>i. \<not> flt (cmplx_Abs (cs ! i)) (Finite (1 / 10 ^ 10)) \<and>
                      (cmplx_IsNaN (complex128div (vs ! i) (cs ! i)) \<or>
                       cmplx_IsInf (complex128div (vs ! i) (cs ! i)))) ks of
        Some i \<Rightarrow> Inl (NewProcessingError ''impedance calculation''
                        (NewValidationError ''Impedance''
                           (''invalid impedance value at frequency index '' @ fmt_d i)))
      | None \<Rightarrow> Inr (fold (\<lambda>i imp. imp[i := (if flt (cmplx_Abs (cs ! i)) (Finite (1 / 10 ^ 10))
                                               then Complex128 (Finite 0) (Finite 0)
                                               else complex128div (vs ! i) (cs ! i))]) ks imp))"
  by (induction ks arbitrary: imp) (simp_all add: Let_def split: option.splits)

lemma fold_update_nth:
  "length (fold (\<lambda>i imp. imp[i := f i]) ks imp) = length imp \<and>
   (\<forall>k<length imp. fold (\<lambda>i imp. imp[i := f i]) ks imp ! k = (if k \<in> set ks then f k else imp ! k))"
proof (induction ks arbitrary: imp)
  case Nil
  show ?case by simp
next
  case (Cons i rest)
  show ?case
    using Cons.IH [of "imp[i := f i]"] by (auto simp: nth_list_update)
qed

lemma fold_update_upt:
  "fold (\<lambda>i imp. imp[i := f i]) [0..<n] (replicate n z) = map f [0..<n]"
  by (rule nth_equalityI) (simp_all add: fold_update_nth)

lemma ValidateSignals_None:
  assumes "ValidateSignals v c = None"
  shows "ValidateSignal v = None" and "ValidateSignal c = None"
    and "ValidateSignalsMatch v c = None"
  using assms by (auto simp: ValidateSignals_def split: option.splits)

lemma half_spectra_shape:
  assumes vs: "ValidateSignals v c = None"
    and pv: "ProcessSignal v = Inr vFull" and pc: "ProcessSignal c = Inr cFull"
    and gv: "GetPositiveFrequencies vFull = Inr vFFT"
    and gc: "GetPositiveFrequencies cFull = Inr cFFT"
  shows "length (Values_c vFFT) = length (Values_c cFFT)"
    and "length (Frequencies_c vFFT) = length (Values_c cFFT)"
    and "0 < length (Values_c cFFT)"
    and "\<not> IsZero (Timestamp v)"
proof -
  have m: "length (Values v) = length (Values c)"
    using ValidateSignals_None(3) [OF vs] by (simp add: ValidateSignalsMatch_eq split: if_splits)
  have lv: "length (Values_c vFull) = length (Values v)"
    and lf: "length (Frequencies_c vFull) = length (Values v)"
    using ProcessSignal_lengths [OF pv] by simp_all
  have lc: "length (Values_c cFull) = length (Values c)"
    using ProcessSignal_lengths [OF pc] by simp
  have ne: "Values v \<noteq> []"
    using ValidateSignals_None(1) [OF vs] by (simp add: ValidateSignal_None_iff)
  show "length (Values_c vFFT) = length (Values_c cFFT)"
    unfolding GetPositiveFrequencies_Inr(1) [OF gv] GetPositiveFrequencies_Inr(1) [OF gc]
    using lv lc m by simp
  show "length (Frequencies_c vFFT) = length (Values_c cFFT)"
    unfolding GetPositiveFrequencies_Inr(2) [OF gv] GetPositiveFrequencies_Inr(1) [OF gc]
    using lv lf lc m by simp
  show "0 < length (Values_c cFFT)"
    unfolding GetPositiveFrequencies_Inr(1) [OF gc]
    using lc m ne by auto
  show "\<not> IsZero (Timestamp v)"
    using ValidateSignals_None(1) [OF vs] by (simp add: ValidateSignal_None_iff)
qed

lemma check_impedance_None:
  "check_impedance i z = None \<longleftrightarrow> \<not> cmplx_IsNaN z \<and> \<not> cmplx_IsInf z"
  by (simp add: check_impedance_def NewValidationError_def)

lemma czero_valid: "\<not> cmplx_IsNaN (Complex128 (Finite 0) (Finite 0))"
  "\<not> cmplx_IsInf (Complex128 (Finite 0) (Finite 0))"
  by (simp_all add: cmplx_IsNaN_def cmplx_IsInf_def math_IsNaN_def math_IsInf_def)

lemma CalculateImpedance_run:
  assumes vs: "ValidateSignals v c = None"
    and pv: "ProcessSignal v = Inr vFull" and pc: "ProcessSignal c = Inr cFull"
    and gv: "GetPositiveFrequencies vFull = Inr vFFT"
    and gc: "GetPositiveFrequencies cFull = Inr cFFT"
  shows "CalculateImpedance v c =
     (case find (\<lambda>i. \<not> flt (cmplx_Abs (Values_c cFFT ! i)) (Finite (1 / 10 ^ 10)) \<and>
                      (cmplx_IsNaN (complex128div (Values_c vFFT ! i) (Values_c cFFT ! i)) \<or>
                       cmplx_IsInf (complex128div (Values_c vFFT ! i) (Values_c cFFT ! i))))
             [0..<length (Values_c cFFT)] of
        Some i \<Rightarrow> Inl (NewProcessingError ''impedance calculation''
                        (NewValidationError ''Impedance''
                           (''invalid impedance value at frequency index '' @ fmt_d i)))
      | None \<Rightarrow>
          Inr \<lparr>Timestamp_z = Timestamp v,
               Impedance = map (\<lambda>i. if flt (cmplx_Abs (Values_c cFFT ! i)) (Finite (1 / 10 ^ 10))
                                     then Complex128 (Finite 0) (Finite 0)
                                     else complex128div (Values_c vFFT ! i) (Values_c cFFT ! i))
                               [0..<length (Values_c cFFT)],
               Frequencies_z = Frequencies_c vFFT,
               Magnitude = map (\<lambda>i. cmplx_Abs
                                  (if flt (cmplx_Abs (Values_c cFFT ! i)) (Finite (1 / 10 ^ 10))
                                   then Complex128 (Finite 0) (Finite 0)
                                   else complex128div (Values_c vFFT ! i) (Values_c cFFT ! i)))
                               [0..<length (Values_c cFFT)],
               Phase = map (\<lambda>i. cmplx_Phase
                                  (if flt (cmplx_Abs (Values_c cFFT ! i)) (Finite (1 / 10 ^ 10))
                                   then Complex128 (Finite 0) (Finite 0)
                                   else complex128div (Values_c vFFT ! i) (Values_c cFFT ! i)))
                           [0..<length (Values_c cFFT)]\<rparr>)"
  (is "_ = (case find ?P _ of Some i \<Rightarrow> Inl (?E i) | None \<Rightarrow> Inr ?R)")
proof -
  let ?n = "length (Values_c cFFT)"
  let ?bin = "\<lambda>i. if flt (cmplx_Abs (Values_c cFFT ! i)) (Finite (1 / 10 ^ 10))
                  then Complex128 (Finite 0) (Finite 0)
                  else complex128div (Values_c vFFT ! i) (Values_c cFFT ! i)"
  note sh = half_spectra_shape [OF vs pv pc gv gc]
  have loop: "impedance_loop (Values_c vFFT) (Values_c cFFT) [0..<?n] (replicate ?n czero)
      = (case find ?P [0..<?n] of Some i \<Rightarrow> Inl (?E i) | None \<Rightarrow> Inr (map ?bin [0..<?n]))"
    unfolding impedance_loop_find fold_update_upt ..
  have head: "CalculateImpedance v c =
      (case impedance_loop (Values_c vFFT) (Values_c cFFT) [0..<?n] (replicate ?n czero) of
         Inl err \<Rightarrow> Inl err
       | Inr impedance \<Rightarrow>
           (let d = \<lparr>Timestamp_z = Timestamp v, Impedance = impedance,
                     Frequencies_z = Frequencies_c vFFT,
                     Magnitude = map cmplx_Abs impedance, Phase = map cmplx_Phase impedance\<rparr>
            in case ValidateImpedanceData d of
                 Some err \<Rightarrow> Inl (NewProcessingError ''impedance data validation'' err)
               | None \<Rightarrow> Inr d))"
    by (simp add: CalculateImpedance_def vs pv pc gv gc sh(1) CalculateMagnitudePhase_def Let_def
             split: sum.splits option.splits)
  show ?thesis
  proof (cases "find ?P [0..<?n]")
    case (Some i)
    then show ?thesis
      unfolding head loop by simp
  next
    case None
    then have ok: "\<forall>k<?n. \<not> cmplx_IsNaN (?bin k) \<and> \<not> cmplx_IsInf (?bin k)"
      by (auto simp: find_None_iff czero_valid)
    have "ValidateImpedanceData ?R = None"
      using sh ok by (auto simp: ValidateImpedanceData_def for_range_None_iff check_impedance_None)
    then show ?thesis
      unfolding head loop None by (simp add: Let_def comp_def)
  qed
qed

section \<open>A quotient beyond the float64 range\<close>

lemma ValidateSignals_large: "ValidateSignals large_voltage small_current = None"
  by (simp add: large_voltage_def small_current_def validate_eval Sub_def minDuration_def
        maxDuration_def Seconds_def go_quot_def go_rem_def Second_def float64_of_int_def)

lemma ProcessSignal_large_voltage:
  "ProcessSignal large_voltage
   = Inr \<lparr>Timestamp_c = 1000000000,
          Values_c = [Complex128 (Finite (2 ^ 1000)) (Finite 0),
                      Complex128 (Finite (2 ^ 1000)) (Finite 0),
                      Complex128 (Finite (2 ^ 1000)) (Finite 0),
                      Complex128 (Finite (2 ^ 1000)) (Finite 0)],
          Frequencies_c = [Finite 0, Finite 1, Finite (- 2), Finite (- 1)]\<rparr>"
  by (simp add: large_voltage_def ProcessSignal_def validate_eval
      computeFFT_4 generateFrequencies_4_4 carith)

lemma ProcessSignal_small_current:
  "ProcessSignal small_current
   = Inr \<lparr>Timestamp_c = 1000000000,
          Values_c = [Complex128 (Finite (1 / 2 ^ 30)) (Finite 0),
                      Complex128 (Finite (1 / 2 ^ 30)) (Finite 0),
                      Complex128 (Finite (1 / 2 ^ 30)) (Finite 0),
                      Complex128 (Finite (1 / 2 ^ 30)) (Finite 0)],
          Frequencies_c = [Finite 0, Finite 1, Finite (- 2), Finite (- 1)]\<rparr>"
  by (simp add: small_current_def ProcessSignal_def validate_eval
      computeFFT_4 generateFrequencies_4_4 carith rnd_def)

lemma cmplx_Abs_real:
  "0 \<le> a \<Longrightarrow> a \<le> 1 \<Longrightarrow> cmplx_Abs (Complex128 (Finite a) (Finite 0)) = Finite a"
  by (simp add: cmplx_Abs_def rnd_unit)

lemma small_current_guard:
  "\<not> flt (cmplx_Abs (Complex128 (Finite (1 / 2 ^ 30)) (Finite 0))) (Finite (1 / 10 ^ 10))"
  by (simp add: cmplx_Abs_real)

lemma large_quotient:
  "complex128div (Complex128 (Finite (2 ^ 1000)) (Finite 0))
                 (Complex128 (Finite (1 / 2 ^ 30)) (Finite 0))
   = Complex128 PosInf (Finite 0)"
  by (simp add: complex128div_def validate_eval overflow_threshold_def fsub_def Let_def rnd_def)

section \<open>Timestamp of the impedance spectrum\<close>

text \<open>
  Claim C10. Whenever \<^verbatim>\<open>CalculateImpedance\<close> returns an impedance spectrum, its timestamp
  is the timestamp of the voltage signal. The current signal's timestamp, which
  validation lets differ from it by up to 100 ms, and every other field of the two
  inputs have no influence on it.
\<close>

theorem CalculateImpedance_timestamp:
  "CalculateImpedance voltageSignal currentSignal = Inr r \<Longrightarrow>
   Timestamp_z r = Timestamp voltageSignal"
  by (rule CalculateImpedance_fields)

text \<open>The DC test, with the current stamped 50 ms after the voltage.\<close>

theorem CalculateImpedance_timestamp_witness:
  "CalculateImpedance dc_voltage dc_current = Inr dc_impedance
   \<and> Timestamp dc_current \<noteq> Timestamp dc_voltage
   \<and> Timestamp_z dc_impedance = Timestamp dc_voltage"
  using CalculateImpedance_timestamp [OF CalculateImpedance_dc] CalculateImpedance_dc
  by (simp add: dc_voltage_def dc_current_def)

section \<open>Magnitude and phase\<close>

text \<open>
  Claim C7. In every impedance spectrum returned by \<^verbatim>\<open>CalculateImpedance\<close> the magnitude
  and phase sequences are as long as the impedance sequence, and at every bin the stored
  magnitude is \<open>|Z|\<close> and the stored phase is \<open>atan2(Im Z, Re Z)\<close> of the stored impedance:
  recomputing them gives the stored values themselves, so they agree within any
  tolerance.
\<close>

theorem magnitude_phase_recomputable:
  assumes "CalculateImpedance voltageSignal currentSignal = Inr r"
  shows "length (Magnitude r) = length (Impedance r) \<and>
         length (Phase r) = length (Impedance r) \<and>
         (\<forall>i<length (Impedance r).
            Magnitude r ! i = cmplx_Abs (Impedance r ! i) \<and>
            Phase r ! i = math_Atan2 (imag_part (Impedance r ! i)) (real_part (Impedance r ! i)))"
  using CalculateImpedance_fields(2,3) [OF assms] by (simp add: cmplx_Phase_def)

theorem magnitude_phase_recomputable_witness:
  "CalculateImpedance dc_voltage dc_current = Inr dc_impedance \<and>
   length (Magnitude dc_impedance) = 2 \<and>
   length (Phase dc_impedance) = 2 \<and>
   Magnitude dc_impedance ! 0 = cmplx_Abs (Impedance dc_impedance ! 0) \<and>
   Magnitude dc_impedance ! 0 = Finite 2 \<and>
   Phase dc_impedance ! 0
     = math_Atan2 (imag_part (Impedance dc_impedance ! 0)) (real_part (Impedance dc_impedance ! 0)) \<and>
   Phase dc_impedance ! 0 = Finite 0"
proof -
  have len: "0 < length (Impedance dc_impedance)"
    by (simp add: dc_impedance_def)
  from magnitude_phase_recomputable [OF CalculateImpedance_dc]
  have bins: "\<forall>i<length (Impedance dc_impedance).
            Magnitude dc_impedance ! i = cmplx_Abs (Impedance dc_impedance ! i) \<and>
            Phase dc_impedance ! i
              = math_Atan2 (imag_part (Impedance dc_impedance ! i))
                           (real_part (Impedance dc_impedance ! i))"
    by blast
  from bins len
  have "Magnitude dc_impedance ! 0 = cmplx_Abs (Impedance dc_impedance ! 0) \<and>
        Phase dc_impedance ! 0
          = math_Atan2 (imag_part (Impedance dc_impedance ! 0))
                       (real_part (Impedance dc_impedance ! 0))"
    by blast
  moreover have "length (Magnitude dc_impedance) = 2" "length (Phase dc_impedance) = 2"
    "Magnitude dc_impedance ! 0 = Finite 2" "Phase dc_impedance ! 0 = Finite 0"
    by (simp_all add: dc_impedance_def)
  ultimately show ?thesis
    using CalculateImpedance_dc by simp
qed

section \<open>Frequency bins\<close>

text \<open>
  Claim C3. For a length \<open>n \<ge> 1\<close> and a sample rate greater than 0,
  \<^verbatim>\<open>generateFrequencies\<close> returns \<open>n\<close> bins, the bin at index \<open>i\<close> being
  \<open>float64(i) * sampleRate / float64(n)\<close> when \<open>i < n/2\<close> (integer division) and
  \<open>float64(i-n) * sampleRate / float64(n)\<close> otherwise, and this is the frequency sequence
  of every spectrum that \<^verbatim>\<open>ProcessSignal\<close> returns for a signal of that length and
  sample rate.
\<close>

theorem transform_frequencies:
  assumes "1 \<le> n" and "fgt sampleRate (Finite 0)"
  shows "\<exists>fs. generateFrequencies n sampleRate = Inr fs \<and> length fs = nat n \<and>
           (\<forall>i<nat n.
              fs ! i = (if int i < n div 2
                        then fdiv (fmul (float64_of_int (int i)) sampleRate) (float64_of_int n)
                        else fdiv (fmul (float64_of_int (int i - n)) sampleRate) (float64_of_int n))) \<and>
           (\<forall>sig cs. int (length (Values sig)) = n \<and> SampleRate sig = sampleRate \<and>
                     ProcessSignal sig = Inr cs \<longrightarrow> Frequencies_c cs = fs)"
proof -
  obtain fs where fs: "generateFrequencies n sampleRate = Inr fs"
    using generateFrequencies_ok [OF assms(1) fgt_not_fle [OF assms(2)]] by blast
  have "\<forall>sig cs. int (length (Values sig)) = n \<and> SampleRate sig = sampleRate \<and>
                     ProcessSignal sig = Inr cs \<longrightarrow> Frequencies_c cs = fs"
    using fs by (auto dest: ProcessSignal_Inr(3))
  then show ?thesis
    using fs generateFrequencies_Inr [OF fs] by blast
qed

theorem transform_frequencies_witness:
  "(1::int) \<le> 4 \<and> fgt (Finite 4) (Finite 0) \<and>
   generateFrequencies 4 (Finite 4) = Inr [Finite 0, Finite 1, Finite (- 2), Finite (- 1)] \<and>
   ProcessSignal impulse = Inr impulse_spectrum \<and>
   Frequencies_c impulse_spectrum = [Finite 0, Finite 1, Finite (- 2), Finite (- 1)]"
proof -
  have h: "(1::int) \<le> 4" "fgt (Finite 4) (Finite 0)" by (simp_all add: fgt_def)
  have p: "ProcessSignal impulse = Inr impulse_spectrum"
    using ProcessSignal_impulse [of 1000000000] by (simp add: impulse_def impulse_spectrum_def)
  show ?thesis
    using transform_frequencies [OF h] h p generateFrequencies_4_4
    by (simp add: impulse_spectrum_def)
qed

section \<open>The transform of an impulse\<close>

text \<open>
  Claim C2, as the code has it. The transform of the impulse \<open>[1,0,0,0]\<close> at sample rate 4
  (with any non-zero timestamp) has the four values \<open>1+0i\<close> and the frequency sequence
  \<open>[0,1,-2,-1]\<close>: index 2 is not below \<open>n/2 = 2\<close>, so its bin is \<open>(2-4)*4/4 = -2\<close>.
\<close>

theorem impulse_transform:
  "\<not> IsZero t \<Longrightarrow>
   ProcessSignal \<lparr>Timestamp = t, Values = [Finite 1, Finite 0, Finite 0, Finite 0],
                  SampleRate = Finite 4\<rparr>
   = Inr \<lparr>Timestamp_c = t,
          Values_c = [Complex128 (Finite 1) (Finite 0), Complex128 (Finite 1) (Finite 0),
                      Complex128 (Finite 1) (Finite 0), Complex128 (Finite 1) (Finite 0)],
          Frequencies_c = [Finite 0, Finite 1, Finite (- 2), Finite (- 1)]\<rparr>"
  using ProcessSignal_impulse [of t] by (simp add: IsZero_def cone_def)

theorem impulse_transform_witness:
  "\<not> IsZero 1000000000 \<and>
   ProcessSignal \<lparr>Timestamp = 1000000000, Values = [Finite 1, Finite 0, Finite 0, Finite 0],
                  SampleRate = Finite 4\<rparr>
   = Inr \<lparr>Timestamp_c = 1000000000,
          Values_c = [Complex128 (Finite 1) (Finite 0), Complex128 (Finite 1) (Finite 0),
                      Complex128 (Finite 1) (Finite 0), Complex128 (Finite 1) (Finite 0)],
          Frequencies_c = [Finite 0, Finite 1, Finite (- 2), Finite (- 1)]\<rparr>"
proof -
  have h: "\<not> IsZero 1000000000" by (simp add: IsZero_def)
  show ?thesis using impulse_transform [OF h] h by simp
qed

text \<open>Against claim C2 as stated: the frequency sequence is not \<open>[0,1,2,-1]\<close>.\<close>

theorem impulse_frequencies_counterexample:
  "ProcessSignal impulse = Inr impulse_spectrum \<and>
   Frequencies_c impulse_spectrum \<noteq> [Finite 0, Finite 1, Finite 2, Finite (- 1)]"
  using ProcessSignal_impulse [of 1000000000] by (simp add: impulse_def impulse_spectrum_def)

section \<open>Twiddle angles\<close>

text \<open>
  Claim C9. A slice length \<open>n\<close> is a Go \<^verbatim>\<open>int\<close>, so \<open>n < 2^63\<close>. For all indices
  \<open>k, j < n\<close> the angle \<open>-2*pi*k/n\<close> of the butterfly loop and the angle \<open>-2*pi*k*j/n\<close>
  of the direct sum are neither NaN nor infinite, whatever the values transformed, and
  so \<^verbatim>\<open>computeFFT\<close> and \<^verbatim>\<open>dft\<close> return a result on every input of length \<open>n\<close>: the
  branch that reports an invalid angle is never taken.
\<close>

theorem twiddle_angles_finite:
  assumes "k < n" and "j < n" and "n < 2 ^ 63" and "length x = n"
  shows "(let angle = fdiv (fmul (Finite (- 2 * pi)) (float64_of_int (int k)))
                        (float64_of_int (int n))
          in \<not> math_IsNaN angle \<and> \<not> math_IsInf angle 0) \<and>
         (let angle = fdiv (fmul (fmul (Finite (- 2 * pi)) (float64_of_int (int k)))
                              (float64_of_int (int j)))
                        (float64_of_int (int n))
          in \<not> math_IsNaN angle \<and> \<not> math_IsInf angle 0) \<and>
         (\<exists>y. computeFFT x = Inr y) \<and> (\<exists>y. dft x = Inr y)"
proof -
  obtain a where a: "fdiv (fmul (Finite (- 2 * pi)) (float64_of_int (int k)))
                        (float64_of_int (int n)) = Finite a"
    using fft_angle_nat [OF assms(1,3)] by blast
  obtain b where b: "fdiv (fmul (fmul (Finite (- 2 * pi)) (float64_of_int (int k)))
                              (float64_of_int (int j)))
                        (float64_of_int (int n)) = Finite b"
    using dft_angle_nat [OF assms(1,2,3)] by blast
  have ne: "x \<noteq> []" using assms(1,4) by auto
  have len: "length x < 2 ^ 63" using assms(3,4) by simp
  show ?thesis
    using computeFFT_ok [OF ne len] dft_ok [OF ne len]
    by (simp only: a b Let_def math_IsNaN_def math_IsInf_def) simp
qed

theorem twiddle_angles_finite_witness:
  "(1::nat) < 4 \<and> (2::nat) < 4 \<and> (4::nat) < 2 ^ 63 \<and>
   length [cone, czero, czero, czero] = 4 \<and>
   \<not> math_IsNaN (fdiv (fmul (Finite (- 2 * pi)) (float64_of_int (int 1))) (float64_of_int (int 4))) \<and>
   \<not> math_IsInf (fdiv (fmul (fmul (Finite (- 2 * pi)) (float64_of_int (int 1)))
                     (float64_of_int (int 2))) (float64_of_int (int 4))) 0 \<and>
   computeFFT [cone, czero, czero, czero] = Inr [cone, cone, cone, cone]"
proof -
  have h: "(1::nat) < 4" "(2::nat) < 4" "(4::nat) < 2 ^ 63"
    "length [cone, czero, czero, czero] = 4" by simp_all
  have "computeFFT [cone, czero, czero, czero] = Inr [cone, cone, cone, cone]"
    by (simp add: computeFFT_4 carith)
  then show ?thesis
    using twiddle_angles_finite [OF h] h by (simp add: Let_def)
qed

section \<open>Length of the transform\<close>

text \<open>
  Claim C8, as the code has it. For every valid signal \<open>x\<close> (of any length \<open>n \<ge> 1\<close>, a Go
  \<^verbatim>\<open>int\<close>, powers of two or not) \<^verbatim>\<open>ProcessSignal\<close> either returns a spectrum whose value
  and frequency sequences are as long as the sample sequence of \<open>x\<close>, or it fails in the
  validation of its own result, on a value or a frequency bin that is NaN or infinite;
  no other failure is possible. It does return a spectrum whenever no sample exceeds
  \<open>2^800\<close> in magnitude and the sample rate does not exceed \<open>2^900\<close>.
\<close>

theorem transform_length:
  assumes "ValidateSignal x = None" and "length (Values x) < 2 ^ 63"
  shows "((\<exists>cs. ProcessSignal x = Inr cs \<and> length (Values_c cs) = length (Values x) \<and>
                length (Frequencies_c cs) = length (Values x)) \<or>
          (\<exists>msg. ProcessSignal x
                   = Inl (ProcessingError ''result validation'' (ValidationError ''Values'' msg)) \<or>
                 ProcessSignal x
                   = Inl (ProcessingError ''result validation''
                            (ValidationError ''Frequencies'' msg)))) \<and>
         ((\<forall>v\<in>set (Values x). \<exists>a. v = Finite a \<and> \<bar>a\<bar> \<le> 2 ^ 800) \<and>
          (\<exists>r. SampleRate x = Finite r \<and> r \<le> 2 ^ 900) \<longrightarrow>
          (\<exists>cs. ProcessSignal x = Inr cs \<and> length (Values_c cs) = length (Values x) \<and>
                length (Frequencies_c cs) = length (Values x)))"
  using transform_cases_field [OF assms] ProcessSignal_ok [OF assms] by blast

text \<open>The three-sample signal of the processor's own test.\<close>

theorem transform_length_witness:
  "ValidateSignal three_samples = None \<and> length (Values three_samples) = 3 \<and>
   length (Values three_samples) < 2 ^ 63 \<and>
   Values three_samples = [Finite 1, Finite 2, Finite 3] \<and>
   SampleRate three_samples = Finite 3 \<and>
   (\<exists>cs. ProcessSignal three_samples = Inr cs \<and> length (Values_c cs) = 3 \<and>
         length (Frequencies_c cs) = 3)"
proof -
  have v: "ValidateSignal three_samples = None"
    by (simp add: three_samples_def validate_eval)
  have l: "length (Values three_samples) = 3"
    by (simp add: three_samples_def)
  have b: "length (Values three_samples) < 2 ^ 63"
    by (simp add: l)
  have s: "\<forall>v\<in>set (Values three_samples). \<exists>a. v = Finite a \<and> \<bar>a\<bar> \<le> 2 ^ 800"
    by (simp add: three_samples_def)
  have r: "\<exists>r. SampleRate three_samples = Finite r \<and> r \<le> 2 ^ 900"
    by (simp add: three_samples_def)
  have "\<exists>cs. ProcessSignal three_samples = Inr cs \<and>
             length (Values_c cs) = length (Values three_samples) \<and>
             length (Frequencies_c cs) = length (Values three_samples)"
    using transform_length [OF v b] s r by blast
  then have "\<exists>cs. ProcessSignal three_samples = Inr cs \<and> length (Values_c cs) = 3 \<and>
         length (Frequencies_c cs) = 3"
    by (simp only: l)
  moreover have "Values three_samples = [Finite 1, Finite 2, Finite 3]"
    "SampleRate three_samples = Finite 3"
    by (simp_all add: three_samples_def)
  ultimately show ?thesis
    using v l b by blast
qed

text \<open>
  Against claim C8 as stated, a valid signal on which the transform fails: the two
  samples \<open>2^1023\<close> are finite, their sum, bin 0 of the spectrum, overflows to \<open>+Inf\<close>,
  and the result validation rejects it.
\<close>

theorem transform_overflow_counterexample:
  "ValidateSignal big_signal = None \<and>
   ProcessSignal big_signal
   = Inl (ProcessingError ''result validation''
            (ValidationError ''Values'' ''infinite complex value found at index 0''))"
  using ValidateSignal_big ProcessSignal_big
  by (simp add: NewProcessingError_def NewValidationError_def)

section \<open>Length of the half spectrum\<close>

text \<open>
  Claim C1, as the code has it. \<^verbatim>\<open>GetPositiveFrequencies\<close> validates the half it keeps
  under the positive-frequency rules. So for a valid full spectrum of length \<open>n\<close> whose
  first \<open>max(1, n/2)\<close> frequency bins are not negative, and in particular for every
  spectrum that \<^verbatim>\<open>ProcessSignal\<close> returns for a signal of at least two samples, it
  succeeds and returns exactly the first \<open>max(1, n/2)\<close> values and bins; for
  \<open>n = 1, 2, 3, 4, 5\<close> these are \<open>1, 1, 1, 2, 2\<close> entries.
\<close>

theorem half_spectrum_length:
  assumes "(ValidateComplexSignal cs = None \<and>
            (\<forall>i<max 1 (length (Values_c cs) div 2). \<not> flt (Frequencies_c cs ! i) (Finite 0))) \<or>
           (\<exists>sig. ProcessSignal sig = Inr cs \<and> 2 \<le> length (Values sig))"
  shows "\<exists>r. GetPositiveFrequencies cs = Inr r \<and>
             length (Values_c r) = max 1 (length (Values_c cs) div 2) \<and>
             length (Frequencies_c r) = max 1 (length (Values_c cs) div 2) \<and>
             Values_c r = take (max 1 (length (Values_c cs) div 2)) (Values_c cs) \<and>
             Frequencies_c r = take (max 1 (length (Values_c cs) div 2)) (Frequencies_c cs) \<and>
             map (\<lambda>n. max 1 (n div 2)) [1, 2, 3, 4, 5] = [1, 1, 1, 2, 2 :: nat]"
proof -
  have "ValidateComplexSignal cs = None"
    using assms ProcessSignal_Inr(5) by blast
  then have ne: "Values_c cs \<noteq> []"
    and l: "length (Frequencies_c cs) = length (Values_c cs)"
    by (simp_all add: ValidateComplexSignal_None_iff)
  from ne have "1 \<le> length (Values_c cs)"
    by (simp add: Suc_le_eq)
  then have "max 1 (length (Values_c cs) div 2) \<le> length (Values_c cs)"
    by auto
  then show ?thesis
    using half_spectrum_cases [OF assms] l by simp
qed

text \<open>The spectra of the processor's own test (four values, one value) and the spectrum
  of the impulse.\<close>

theorem half_spectrum_length_witness:
  "ValidateComplexSignal test_spectrum = None \<and>
   \<not> flt (Frequencies_c test_spectrum ! 0) (Finite 0) \<and>
   \<not> flt (Frequencies_c test_spectrum ! 1) (Finite 0) \<and>
   (\<exists>r. GetPositiveFrequencies test_spectrum = Inr r \<and> length (Values_c r) = 2) \<and>
   ValidateComplexSignal single_value_spectrum = None \<and>
   \<not> flt (Frequencies_c single_value_spectrum ! 0) (Finite 0) \<and>
   (\<exists>r. GetPositiveFrequencies single_value_spectrum = Inr r \<and> length (Values_c r) = 1) \<and>
   ProcessSignal impulse = Inr impulse_spectrum \<and> 2 \<le> length (Values impulse) \<and>
   (\<exists>r. GetPositiveFrequencies impulse_spectrum = Inr r \<and> length (Values_c r) = 2)"
proof -
  have "max 1 (length (Values_c test_spectrum) div 2) = 2"
    by (simp add: test_spectrum_def)
  moreover have "\<forall>i<2. \<not> flt (Frequencies_c test_spectrum ! i) (Finite 0)"
    by (simp add: test_spectrum_def less_2_cases_iff)
  ultimately have t: "ValidateComplexSignal test_spectrum = None \<and>
     (\<forall>i<max 1 (length (Values_c test_spectrum) div 2).
        \<not> flt (Frequencies_c test_spectrum ! i) (Finite 0))"
    using ValidateComplexSignal_test by simp
  have s: "ValidateComplexSignal single_value_spectrum = None \<and>
     (\<forall>i<max 1 (length (Values_c single_value_spectrum) div 2).
        \<not> flt (Frequencies_c single_value_spectrum ! i) (Finite 0))"
    using ValidateComplexSignal_single by (simp add: single_value_spectrum_def)
  have p: "ProcessSignal impulse = Inr impulse_spectrum"
    using ProcessSignal_impulse [of 1000000000] by (simp add: impulse_def impulse_spectrum_def)
  have n: "2 \<le> length (Values impulse)" by (simp add: impulse_def)
  have i: "\<exists>sig. ProcessSignal sig = Inr impulse_spectrum \<and> 2 \<le> length (Values sig)"
    using p n by blast
  have "\<exists>r. GetPositiveFrequencies test_spectrum = Inr r \<and> length (Values_c r) = 2"
    using half_spectrum_length [OF disjI1 [OF t]] by (auto simp: test_spectrum_def)
  moreover have "\<exists>r. GetPositiveFrequencies single_value_spectrum = Inr r \<and> length (Values_c r) = 1"
    using half_spectrum_length [OF disjI1 [OF s]] by (auto simp: single_value_spectrum_def)
  moreover have "\<exists>r. GetPositiveFrequencies impulse_spectrum = Inr r \<and> length (Values_c r) = 2"
    using half_spectrum_length [OF disjI2 [OF i]] by (auto simp: impulse_spectrum_def)
  moreover have "\<not> flt (Frequencies_c test_spectrum ! 0) (Finite 0)"
    "\<not> flt (Frequencies_c test_spectrum ! 1) (Finite 0)"
    "\<not> flt (Frequencies_c single_value_spectrum ! 0) (Finite 0)"
    by (simp_all add: test_spectrum_def single_value_spectrum_def)
  ultimately show ?thesis
    using t s p n by simp
qed

text \<open>
  Against claim C1 as stated, a valid full spectrum that \<^verbatim>\<open>GetPositiveFrequencies\<close>
  rejects: the bins are listed in ascending order of frequency, which full-spectrum
  validation accepts, and the half that is kept starts with a negative bin.
\<close>

theorem half_spectrum_counterexample:
  "ValidateComplexSignal centred_spectrum = None \<and>
   length (Values_c centred_spectrum) = 4 \<and>
   GetPositiveFrequencies centred_spectrum
   = Inl (ProcessingError ''result validation''
            (ValidationError ''Frequencies'' ''negative frequency found at index 0''))"
  using ValidateComplexSignal_centred GetPositiveFrequencies_centred
  by (simp add: centred_spectrum_def)

section \<open>Impedance bins and the zero-current guard\<close>

text \<open>
  Claim C4. When \<^verbatim>\<open>CalculateImpedance\<close> returns a spectrum, the two transforms and the two
  half spectra exist, there is one impedance bin per bin of the current half spectrum,
  and bin \<open>i\<close> is \<open>0+0i\<close> if the magnitude of the current bin is strictly below \<open>1e-10\<close> and
  the quotient of the voltage bin by the current bin otherwise. Consequently, when all
  current samples are zero, every impedance bin is exactly \<open>0+0i\<close> (and so neither NaN
  nor infinite).

  The spectrum is returned, too: for a valid pair whose transforms and half spectra
  exist, \<^verbatim>\<open>CalculateImpedance\<close> returns exactly these bins, with the voltage's timestamp and
  frequency bins and the magnitude and phase of each bin, unless a quotient that is
  taken is NaN or infinite; then it fails at the first such index.
\<close>

theorem impedance_bins:
  "(CalculateImpedance voltageSignal currentSignal = Inr r \<longrightarrow>
      (\<exists>voltageFull currentFull voltageFFT currentFFT.
           ProcessSignal voltageSignal = Inr voltageFull \<and>
           ProcessSignal currentSignal = Inr currentFull \<and>
           GetPositiveFrequencies voltageFull = Inr voltageFFT \<and>
           GetPositiveFrequencies currentFull = Inr currentFFT \<and>
           length (Impedance r) = length (Values_c currentFFT) \<and>
           (\<forall>i<length (Impedance r).
              Impedance r ! i
                = (if flt (cmplx_Abs (Values_c currentFFT ! i)) (Finite (1 / 10 ^ 10))
                   then Complex128 (Finite 0) (Finite 0)
                   else complex128div (Values_c voltageFFT ! i) (Values_c currentFFT ! i))) \<and>
           ((\<forall>x\<in>set (Values currentSignal). x = Finite 0) \<longrightarrow>
              (\<forall>z\<in>set (Impedance r). z = Complex128 (Finite 0) (Finite 0))))) \<and>
   (ValidateSignals voltageSignal currentSignal = None \<and>
    ProcessSignal voltageSignal = Inr vFull \<and>
    ProcessSignal currentSignal = Inr cFull \<and>
    GetPositiveFrequencies vFull = Inr vFFT \<and>
    GetPositiveFrequencies cFull = Inr cFFT \<longrightarrow>
      CalculateImpedance voltageSignal currentSignal =
        (case find (\<lambda>i. \<not> flt (cmplx_Abs (Values_c cFFT ! i)) (Finite (1 / 10 ^ 10)) \<and>
                         (cmplx_IsNaN (complex128div (Values_c vFFT ! i) (Values_c cFFT ! i)) \<or>
                          cmplx_IsInf (complex128div (Values_c vFFT ! i) (Values_c cFFT ! i))))
                [0..<length (Values_c cFFT)] of
           Some i \<Rightarrow> Inl (NewProcessingError ''impedance calculation''
                           (NewValidationError ''Impedance''
                              (''invalid impedance value at frequency index '' @ fmt_d i)))
         | None \<Rightarrow>
             Inr \<lparr>Timestamp_z = Timestamp voltageSignal,
                  Impedance = map (\<lambda>i. if flt (cmplx_Abs (Values_c cFFT ! i)) (Finite (1 / 10 ^ 10))
                                        then Complex128 (Finite 0) (Finite 0)
                                        else complex128div (Values_c vFFT ! i) (Values_c cFFT ! i))
                                  [0..<length (Values_c cFFT)],
                  Frequencies_z = Frequencies_c vFFT,
                  Magnitude = map (\<lambda>i. cmplx_Abs
                                     (if flt (cmplx_Abs (Values_c cFFT ! i)) (Finite (1 / 10 ^ 10))
                                      then Complex128 (Finite 0) (Finite 0)
                                      else complex128div (Values_c vFFT ! i) (Values_c cFFT ! i)))
                                  [0..<length (Values_c cFFT)],
                  Phase = map (\<lambda>i. cmplx_Phase
                                     (if flt (cmplx_Abs (Values_c cFFT ! i)) (Finite (1 / 10 ^ 10))
                                      then Complex128 (Finite 0) (Finite 0)
                                      else complex128div (Values_c vFFT ! i) (Values_c cFFT ! i)))
                              [0..<length (Values_c cFFT)]\<rparr>))"
proof (intro conjI impI)
  assume ok: "CalculateImpedance voltageSignal currentSignal = Inr r"
  obtain voltageFull currentFull voltageFFT currentFFT where
    pv: "ProcessSignal voltageSignal = Inr voltageFull" and
    pc: "ProcessSignal currentSignal = Inr currentFull" and
    gv: "GetPositiveFrequencies voltageFull = Inr voltageFFT" and
    gc: "GetPositiveFrequencies currentFull = Inr currentFFT" and
    len: "length (Values_c voltageFFT) = length (Values_c currentFFT)" and
    loop: "impedance_loop (Values_c voltageFFT) (Values_c currentFFT)
             [0..<length (Values_c voltageFFT)]
             (replicate (length (Values_c voltageFFT)) czero) = Inr (Impedance r)"
    using CalculateImpedance_Inr [OF ok] by blast
  note res = impedance_loop_result [OF loop]
  have l: "length (Impedance r) = length (Values_c currentFFT)"
    using res len by simp
  have bins: "\<forall>i<length (Impedance r).
              Impedance r ! i
                = (if flt (cmplx_Abs (Values_c currentFFT ! i)) (Finite (1 / 10 ^ 10))
                   then Complex128 (Finite 0) (Finite 0)
                   else complex128div (Values_c voltageFFT ! i) (Values_c currentFFT ! i))"
    using res len by simp
  have zero: "\<forall>z\<in>set (Impedance r). z = Complex128 (Finite 0) (Finite 0)"
    if z: "\<forall>x\<in>set (Values currentSignal). x = Finite 0"
  proof -
    have "\<forall>z\<in>set (map (\<lambda>val. Complex128 val (Finite 0)) (Values currentSignal)). z = czero"
      using z by (auto simp: czero_def)
    then have "\<forall>z\<in>set (Values_c currentFull). z = czero"
      using computeFFT_zero [OF ProcessSignal_Inr(2) [OF pc]] by blast
    then have "\<forall>z\<in>set (Values_c currentFFT). z = czero"
      unfolding GetPositiveFrequencies_Inr(1) [OF gc] by (meson in_set_takeD)
    then have "\<forall>i<length (Impedance r). Values_c currentFFT ! i = czero"
      using l by simp
    then have "\<forall>i<length (Impedance r). Impedance r ! i = Complex128 (Finite 0) (Finite 0)"
      using bins by simp
    then show ?thesis
      by (simp add: all_set_conv_all_nth)
  qed
  show "\<exists>voltageFull currentFull voltageFFT currentFFT.
           ProcessSignal voltageSignal = Inr voltageFull \<and>
           ProcessSignal currentSignal = Inr currentFull \<and>
           GetPositiveFrequencies voltageFull = Inr voltageFFT \<and>
           GetPositiveFrequencies currentFull = Inr currentFFT \<and>
           length (Impedance r) = length (Values_c currentFFT) \<and>
           (\<forall>i<length (Impedance r).
              Impedance r ! i
                = (if flt (cmplx_Abs (Values_c currentFFT ! i)) (Finite (1 / 10 ^ 10))
                   then Complex128 (Finite 0) (Finite 0)
                   else complex128div (Values_c voltageFFT ! i) (Values_c currentFFT ! i))) \<and>
           ((\<forall>x\<in>set (Values currentSignal). x = Finite 0) \<longrightarrow>
              (\<forall>z\<in>set (Impedance r). z = Complex128 (Finite 0) (Finite 0)))"
    using pv pc gv gc l bins zero by blast
next
  assume a: "ValidateSignals voltageSignal currentSignal = None \<and>
    ProcessSignal voltageSignal = Inr vFull \<and>
    ProcessSignal currentSignal = Inr cFull \<and>
    GetPositiveFrequencies vFull = Inr vFFT \<and>
    GetPositiveFrequencies cFull = Inr cFFT"
  then have vs: "ValidateSignals voltageSignal currentSignal = None"
    and pv: "ProcessSignal voltageSignal = Inr vFull"
    and pc: "ProcessSignal currentSignal = Inr cFull"
    and gv: "GetPositiveFrequencies vFull = Inr vFFT"
    and gc: "GetPositiveFrequencies cFull = Inr cFFT"
    by simp_all
  show "CalculateImpedance voltageSignal currentSignal =
        (case find (\<lambda>i. \<not> flt (cmplx_Abs (Values_c cFFT ! i)) (Finite (1 / 10 ^ 10)) \<and>
                         (cmplx_IsNaN (complex128div (Values_c vFFT ! i) (Values_c cFFT ! i)) \<or>
                          cmplx_IsInf (complex128div (Values_c vFFT ! i) (Values_c cFFT ! i))))
                [0..<length (Values_c cFFT)] of
           Some i \<Rightarrow> Inl (NewProcessingError ''impedance calculation''
                           (NewValidationError ''Impedance''
                              (''invalid impedance value at frequency index '' @ fmt_d i)))
         | None \<Rightarrow>
             Inr \<lparr>Timestamp_z = Timestamp voltageSignal,
                  Impedance = map (\<lambda>i. if flt (cmplx_Abs (Values_c cFFT ! i)) (Finite (1 / 10 ^ 10))
                                        then Complex128 (Finite 0) (Finite 0)
                                        else complex128div (Values_c vFFT ! i) (Values_c cFFT ! i))
                                  [0..<length (Values_c cFFT)],
                  Frequencies_z = Frequencies_c vFFT,
                  Magnitude = map (\<lambda>i. cmplx_Abs
                                     (if flt (cmplx_Abs (Values_c cFFT ! i)) (Finite (1 / 10 ^ 10))
                                      then Complex128 (Finite 0) (Finite 0)
                                      else complex128div (Values_c vFFT ! i) (Values_c cFFT ! i)))
                                  [0..<length (Values_c cFFT)],
                  Phase = map (\<lambda>i. cmplx_Phase
                                     (if flt (cmplx_Abs (Values_c cFFT ! i)) (Finite (1 / 10 ^ 10))
                                      then Complex128 (Finite 0) (Finite 0)
                                      else complex128div (Values_c vFFT ! i) (Values_c cFFT ! i)))
                              [0..<length (Values_c cFFT)]\<rparr>)"
    by (rule CalculateImpedance_run [OF vs pv pc gv gc])
qed

text \<open>
  The DC pair (voltage 2 over current 1: each bin is the quotient \<open>2+0i\<close>), the
  zero-current pair (each bin is guarded), and a pair whose quotient overflows.
\<close>

theorem impedance_bins_witness:
  "ValidateSignals dc_voltage dc_current = None \<and>
   CalculateImpedance dc_voltage dc_current = Inr dc_impedance \<and>
   \<not> flt (cmplx_Abs (Complex128 (Finite 1) (Finite 0))) (Finite (1 / 10 ^ 10)) \<and>
   Impedance dc_impedance ! 0
     = complex128div (Complex128 (Finite 2) (Finite 0)) (Complex128 (Finite 1) (Finite 0)) \<and>
   Impedance dc_impedance ! 0 = Complex128 (Finite 2) (Finite 0) \<and>
   Impedance dc_impedance ! 1 = Complex128 (Finite 2) (Finite 0) \<and>
   CalculateImpedance zc_voltage zc_current = Inr zc_impedance \<and>
   Values zc_current = [Finite 0, Finite 0, Finite 0, Finite 0] \<and>
   length (Impedance zc_impedance) = 2 \<and>
   Impedance zc_impedance ! 0 = Complex128 (Finite 0) (Finite 0) \<and>
   Impedance zc_impedance ! 1 = Complex128 (Finite 0) (Finite 0) \<and>
   ValidateSignals large_voltage small_current = None \<and>
   CalculateImpedance large_voltage small_current
     = Inl (ProcessingError ''impedance calculation''
              (ValidationError ''Impedance'' ''invalid impedance value at frequency index 0''))"
proof -
  have half: "GetPositiveFrequencies \<lparr>Timestamp_c = t,
          Values_c = [Complex128 (Finite a) (Finite 0), Complex128 (Finite a) (Finite 0),
                      Complex128 (Finite a) (Finite 0), Complex128 (Finite a) (Finite 0)],
          Frequencies_c = [Finite 0, Finite 1, Finite (- 2), Finite (- 1)]\<rparr>
     = Inr \<lparr>Timestamp_c = t,
          Values_c = [Complex128 (Finite a) (Finite 0), Complex128 (Finite a) (Finite 0)],
          Frequencies_c = [Finite 0, Finite 1]\<rparr>" if "t \<noteq> 0" for t a
    using that by (rule GetPositiveFrequencies_4)
  have guard: "\<not> flt (cmplx_Abs (Complex128 (Finite 1) (Finite 0))) (Finite (1 / 10 ^ 10))"
    by (simp add: cmplx_Abs_real)
  have quot: "complex128div (Complex128 (Finite 2) (Finite 0)) (Complex128 (Finite 1) (Finite 0))
              = Complex128 (Finite 2) (Finite 0)"
    by (simp add: complex128div_def validate_eval overflow_threshold_def fsub_def Let_def)
  have dc: "CalculateImpedance dc_voltage dc_current = Inr dc_impedance"
    using impedance_bins [THEN conjunct2, rule_format,
            OF conjI [OF ValidateSignals_dc
                 conjI [OF ProcessSignal_dc_voltage
                   conjI [OF ProcessSignal_dc_current conjI [OF half half]]]]]
    by (simp add: guard quot dc_impedance_def dc_voltage_def upt_rec cmplx_Abs_def cmplx_Phase_def
          validate_eval math_Atan2_def copysign_def sqrt_4 overflow_threshold_def)
  have large: "CalculateImpedance large_voltage small_current
     = Inl (ProcessingError ''impedance calculation''
              (ValidationError ''Impedance'' ''invalid impedance value at frequency index 0''))"
    using impedance_bins [THEN conjunct2, rule_format,
            OF conjI [OF ValidateSignals_large
                 conjI [OF ProcessSignal_large_voltage
                   conjI [OF ProcessSignal_small_current conjI [OF half half]]]]]
    by (simp add: upt_rec small_current_guard [simplified] large_quotient [simplified]
          cmplx_IsInf_def math_IsInf_def fmt_d_digit NewProcessingError_def
          NewValidationError_def)
  have z: "\<forall>x\<in>set (Values zc_current). x = Finite 0"
    by (simp add: zc_current_def)
  have "\<forall>z\<in>set (Impedance zc_impedance). z = Complex128 (Finite 0) (Finite 0)"
    using impedance_bins [THEN conjunct1, rule_format, OF CalculateImpedance_zc] z by blast
  moreover have "length (Impedance zc_impedance) = 2"
    by (simp add: zc_impedance_def)
  ultimately have "Impedance zc_impedance ! 0 = Complex128 (Finite 0) (Finite 0)"
    "Impedance zc_impedance ! 1 = Complex128 (Finite 0) (Finite 0)"
    by (simp_all add: all_set_conv_all_nth)
  then show ?thesis
    using CalculateImpedance_zc \<open>length (Impedance zc_impedance) = 2\<close> dc large guard quot
      ValidateSignals_dc ValidateSignals_large
    by (simp add: zc_current_def dc_impedance_def)
qed

section \<open>Mismatched signals\<close>

text \<open>
  Claim C5, as the code has it. For two signals that each pass \<^verbatim>\<open>ValidateSignal\<close>,
  \<^verbatim>\<open>ValidateSignals\<close> makes three checks in this order and reports the first that fails:
  the lengths of the value sequences differ (\<^verbatim>\<open>ErrMismatchedSignalLength\<close>); otherwise
  the sample rates differ (\<^verbatim>\<open>ErrMismatchedSampleRate\<close>); otherwise the timestamps differ
  by more than 100 ms, that is by more than 100000000 ns (a validation error on the
  timestamp). Whatever error it reports, \<^verbatim>\<open>CalculateImpedance\<close> returns that error,
  wrapped as the failure of its signal validation, and no impedance spectrum: the result
  does not depend on any transform.
\<close>

theorem validatePair_failures:
  assumes "ValidateSignal voltageSignal = None" and "ValidateSignal currentSignal = None"
  shows "ValidateSignals voltageSignal currentSignal =
           (if length (Values voltageSignal) \<noteq> length (Values currentSignal) then
              Some ErrMismatchedSignalLength
            else if fne (SampleRate voltageSignal) (SampleRate currentSignal) then
              Some ErrMismatchedSampleRate
            else if 100000000 < \<bar>Timestamp voltageSignal - Timestamp currentSignal\<bar> then
              Some (ValidationError ''Timestamp''
                      ''voltage and current signals have significantly different timestamps'')
            else None) \<and>
         (\<forall>err. ValidateSignals voltageSignal currentSignal = Some err \<longrightarrow>
                CalculateImpedance voltageSignal currentSignal
                = Inl (ProcessingError ''signal validation'' err))"
  using assms
  by (simp add: ValidateSignals_def ValidateSignalsMatch_eq CalculateImpedance_def
        NewProcessingError_def)

text \<open>The DC voltage paired with a current that is one sample short, with one at another
  sample rate, and with one stamped 150 ms later.\<close>

theorem validatePair_failures_witness:
  "ValidateSignal dc_voltage = None \<and> ValidateSignal short_current = None \<and>
   ValidateSignal fast_current = None \<and> ValidateSignal late_current = None \<and>
   ValidateSignals dc_voltage short_current = Some ErrMismatchedSignalLength \<and>
   CalculateImpedance dc_voltage short_current
     = Inl (ProcessingError ''signal validation'' ErrMismatchedSignalLength) \<and>
   ValidateSignals dc_voltage fast_current = Some ErrMismatchedSampleRate \<and>
   CalculateImpedance dc_voltage fast_current
     = Inl (ProcessingError ''signal validation'' ErrMismatchedSampleRate) \<and>
   ValidateSignals dc_voltage late_current
     = Some (ValidationError ''Timestamp''
               ''voltage and current signals have significantly different timestamps'') \<and>
   CalculateImpedance dc_voltage late_current
     = Inl (ProcessingError ''signal validation''
              (ValidationError ''Timestamp''
                 ''voltage and current signals have significantly different timestamps''))"
proof -
  have v: "ValidateSignal dc_voltage = None"
    by (simp add: dc_voltage_def validate_eval)
  have s: "ValidateSignal short_current = None"
    by (simp add: short_current_def validate_eval)
  have f: "ValidateSignal fast_current = None"
    by (simp add: fast_current_def validate_eval)
  have l: "ValidateSignal late_current = None"
    by (simp add: late_current_def validate_eval)
  have "ValidateSignals dc_voltage short_current = Some ErrMismatchedSignalLength \<and>
        CalculateImpedance dc_voltage short_current
          = Inl (ProcessingError ''signal validation'' ErrMismatchedSignalLength)"
    using validatePair_failures [OF v s] by (simp add: dc_voltage_def short_current_def)
  moreover
  have "ValidateSignals dc_voltage fast_current = Some ErrMismatchedSampleRate \<and>
        CalculateImpedance dc_voltage fast_current
          = Inl (ProcessingError ''signal validation'' ErrMismatchedSampleRate)"
    using validatePair_failures [OF v f]
    by (simp add: dc_voltage_def fast_current_def fne_def feq_def)
  moreover
  have "ValidateSignals dc_voltage late_current
          = Some (ValidationError ''Timestamp''
                    ''voltage and current signals have significantly different timestamps'') \<and>
        CalculateImpedance dc_voltage late_current
          = Inl (ProcessingError ''signal validation''
                   (ValidationError ''Timestamp''
                      ''voltage and current signals have significantly different timestamps''))"
    using validatePair_failures [OF v l]
    by (simp add: dc_voltage_def late_current_def fne_def feq_def)
  ultimately show ?thesis
    using v s f l by simp
qed

text \<open>
  Against claim C5 as stated, two valid signals whose sample rates differ and whose
  lengths differ too: the failure reported is the mismatch of the lengths, not that of
  the sample rates.
\<close>

theorem validatePair_precedence_counterexample:
  "ValidateSignal dc_voltage = None \<and> ValidateSignal short_fast_current = None \<and>
   fne (SampleRate dc_voltage) (SampleRate short_fast_current) \<and>
   ValidateSignals dc_voltage short_fast_current = Some ErrMismatchedSignalLength \<and>
   ValidateSignals dc_voltage short_fast_current \<noteq> Some ErrMismatchedSampleRate"
  by (simp add: dc_voltage_def short_fast_current_def validate_eval)

section \<open>Validation of a time-domain signal\<close>

text \<open>
  Claim C6 at a signal whose sample rate is NaN. \<^verbatim>\<open>ValidateSignal\<close> rejects a sample rate
  with the test \<^verbatim>\<open>SampleRate <= 0\<close>, which is false for NaN, so the signal is accepted
  although its sample rate is not greater than 0. For every other signal the claim
  holds (\<open>ValidateSignal_None_iff_gt\<close>), and a failure on a sample is the failure of
  the first sample that is not finite (\<open>ValidateSignal_first_violation\<close>).
\<close>

theorem ValidateSignal_NaN_rate:
  "ValidateSignal nan_rate_signal = None \<and>
   Values nan_rate_signal \<noteq> [] \<and>
   \<not> fgt (SampleRate nan_rate_signal) (Finite 0)"
  by (simp add: nan_rate_signal_def validate_eval)

end
